theory Spec2Isabelle
  imports Complex_Main "HOL-Library.Sublist"
begin

section \<open>JavaScript numbers on integer values\<close>

text \<open>
  Every balance the parser touches is a JavaScript Number, that is an IEEE-754 binary64
  value.  All of them are integer valued (lamports, raw token amounts and their
  differences), so the model keeps them as \<open>int\<close> and writes the rounding out:
  \<open>toNumber x\<close> is the binary64 value nearest to the integer \<open>x\<close> (ties to even
  significand), which is again an integer.  Integers of magnitude below \<open>2^53\<close> are
  kept as they are.  Overflow to Infinity (magnitude \<open>2^1024\<close> and above) is not
  modelled; raw amounts on chain are unsigned 64-bit values.
\<close>

fun bitlen :: "nat \<Rightarrow> nat" where
  "bitlen n = (if n = 0 then 0 else Suc (bitlen (n div 2)))"

declare bitlen.simps [simp del]

definition rnd53 :: "nat \<Rightarrow> nat" where
  "rnd53 n =
     (if n < 2 ^ 53 then n
      else
        let e = bitlen n - 53;
            q = n div 2 ^ e;
            r = n mod 2 ^ e;
            h = 2 ^ (e - 1)
        in if r < h then q * 2 ^ e
           else if h < r then (q + 1) * 2 ^ e
           else (if even q then q else q + 1) * 2 ^ e)"

definition toNumber :: "int \<Rightarrow> int" where
  "toNumber x = (if x < 0 then - int (rnd53 (nat (- x))) else int (rnd53 (nat x)))"

text \<open>\<open>parseInt\<close> on the decimal rendering of a raw amount.\<close>

definition parseInt :: "nat \<Rightarrow> int" where
  "parseInt a = toNumber (int a)"

text \<open>Number subtraction \<open>a - b\<close> of two integer-valued Numbers.\<close>

definition numSub :: "int \<Rightarrow> int \<Rightarrow> int" where
  "numSub a b = toNumber (a - b)"

section \<open>Data model\<close>

text \<open>
  An account key reaches the parser either as a base58 string or as a key object whose
  \<open>toString()\<close> is that string; \<open>isAddressInvolved\<close> handles both.
\<close>

datatype account_key = KeyString string | KeyObject string

fun keyToString :: "account_key \<Rightarrow> string" where
  "keyToString (KeyString s) = s"
| "keyToString (KeyObject s) = s"

text \<open>\<open>account === monitoredAddress\<close>: strict equality with a string.\<close>

fun strictEq :: "account_key \<Rightarrow> string \<Rightarrow> bool" where
  "strictEq (KeyString s) a = (s = a)"
| "strictEq (KeyObject s) a = False"

record instruction =
  programId :: string

text \<open>
  A token balance entry of the transaction metadata: one per token account the
  transaction touches.  \<open>amount\<close> is \<open>uiTokenAmount.amount\<close>, the decimal rendering of
  the raw unsigned amount; the model keeps its value.
\<close>

record token_balance =
  accountIndex :: nat
  owner :: string
  mint :: string
  amount :: nat

text \<open>
  \<open>preBalances\<close> and \<open>postBalances\<close> hold the lamports of each account as the node
  reports them, unsigned 64-bit integers; the parser reads them as Numbers.
\<close>

record tx_meta =
  preBalances :: "nat list"
  postBalances :: "nat list"
  preTokenBalances :: "token_balance list option"
  postTokenBalances :: "token_balance list option"

text \<open>
  The transaction envelope, flattened: \<open>signatures\<close>, \<open>instructions\<close> and
  \<open>accountKeys\<close> are those of \<open>transaction.transaction\<close> and its message;
  \<open>meta\<close> may be null.
\<close>

record transaction =
  signatures :: "string list"
  blockTime :: "nat option"
  instructions :: "instruction list"
  accountKeys :: "account_key list"
  meta :: "tx_meta option"

record token_change =
  mint :: string
  change :: int
  preAmount :: int
  postAmount :: int

subsection \<open>Collaborators\<close>

text \<open>
  Prices come from the market data service (network lookups behind a cache), metadata
  from the token service.  Their answers at the time of a call are a parameter of the
  model.  USD arithmetic is display-only; it is kept over the rationals and its
  binary64 rounding is not modelled.  The two string formatters (\<open>toFixed(6)\<close> with
  trailing zeros stripped, and the en-US currency format) are parameters as well.
\<close>

record price_data =
  price :: rat
  priceFormatted :: string
  marketCapFormatted :: string

record token_metadata =
  symbol :: string
  decimals :: nat

record services =
  getTokenPrice :: "string \<Rightarrow> price_data option"
  getTokenMetadata :: "string \<Rightarrow> token_metadata option"

record formatters =
  toFixed6 :: "rat \<Rightarrow> string"
  formatUSD :: "rat \<Rightarrow> string"

record token_info =
  metadata :: "token_metadata option"
  price :: "price_data option"

definition getTokenInfo :: "services \<Rightarrow> string \<Rightarrow> token_info" where
  "getTokenInfo svc m =
     \<lparr>metadata = getTokenMetadata svc m, token_info.price = getTokenPrice svc m\<rparr>"

definition getTokenDecimals :: "services \<Rightarrow> string \<Rightarrow> nat" where
  "getTokenDecimals svc m =
     (case getTokenMetadata svc m of Some md \<Rightarrow> decimals md | None \<Rightarrow> 9)"

subsection \<open>The parsed event\<close>

record swap_leg =
  mint :: string
  symbol :: string
  amount :: int
  usdValue :: "rat option"

record token_brief =
  symbol :: string
  price :: string
  marketCap :: string

text \<open>
  The object the parser returns; a property the source does not set is \<open>None\<close>.
  \<open>val\<close> is the source's \<open>value\<close> property.
\<close>

record parsed_data =
  platform :: string
  swap :: "string option"
  transfer :: "string option"
  defi :: "string option"
  activity :: "string option"
  inputToken :: "swap_leg option"
  outputToken :: "swap_leg option"
  val :: string
  type :: "string option"
  tokenInfo :: "token_brief option"
  signature :: "string option"
  blockTime :: "nat option"
  monitoredAddress :: "string option"

definition emptyParsed :: parsed_data where
  "emptyParsed =
     \<lparr>platform = [], swap = None, transfer = None, defi = None, activity = None,
      inputToken = None, outputToken = None, val = [], type = None, tokenInfo = None,
      signature = None, parsed_data.blockTime = None, monitoredAddress = None\<rparr>"

section \<open>Constants\<close>

definition JUPITER_V6 :: string where "JUPITER_V6 = ''JUP6LkbZbjS1jKKwapdHNy74zcZ3tLUZoi5QNyVTaV4''"
definition JUPITER_V4 :: string where "JUPITER_V4 = ''JUP4Fb2cqiRUcaTHdrPC8h2gNsA2ETXiPDD33WcGuJB''"
definition RAYDIUM_AMM :: string where "RAYDIUM_AMM = ''675kPX9MHTjS2zt1qfr1NYHuzeLXfQM9H24wFSUt1Mp8''"
definition RAYDIUM_CLMM :: string where "RAYDIUM_CLMM = ''CAMMCzo5YL8w4VFF8KVHrK22GGUQp5VhH5b9KmTcpY9''"
definition ORCA_WHIRLPOOL :: string where "ORCA_WHIRLPOOL = ''whirLbMiicVdio4qvUfM5KAg6Ct8VwpYzGff3uctyCc''"
definition METEORA :: string where "METEORA = ''M2mx93ekt1fmXSVkTrUL9xVFHkmME8HTUi5Cyc5aF7K''"
definition SERUM_V3 :: string where "SERUM_V3 = ''9xQeWvG816bUx9EPjHmaT23yvVM2ZWbrrpZb9PusVFin''"
definition OPENBOOK :: string where "OPENBOOK = ''srmqPvymJeFKQ4zGQed1GFppgkRHL9kaELCbyksJtPX''"

definition dexProgramIds :: "string list" where
  "dexProgramIds =
     [JUPITER_V6, JUPITER_V4, RAYDIUM_AMM, RAYDIUM_CLMM, ORCA_WHIRLPOOL, METEORA,
      SERUM_V3, OPENBOOK]"

definition SYSTEM_PROGRAM :: string where "SYSTEM_PROGRAM = ''11111111111111111111111111111111''"
definition TOKEN_PROGRAM :: string where "TOKEN_PROGRAM = ''TokenkegQfeZyiNwAJbNbGKPFXCWuBvf9Ss623VQ5DA''"
definition ATA_PROGRAM :: string where "ATA_PROGRAM = ''ATokenGPvbdGVxr1b2hvZbsiqW5xWH25efTNsLJA8knL''"
definition SOL_MINT :: string where "SOL_MINT = ''So11111111111111111111111111111111111111112''"

definition SWAP :: string where "SWAP = ''SWAP''"
definition TRANSFER :: string where "TRANSFER = ''TRANSFER''"
definition DEFI :: string where "DEFI = ''DEFI''"
definition UNKNOWN :: string where "UNKNOWN = ''UNKNOWN''"

section \<open>The transaction parser\<close>

subsection \<open>Insertion-ordered Map and Set\<close>

text \<open>
  A JavaScript \<open>Map\<close> iterates its keys in the order of their first insertion, and
  \<open>set\<close> on a present key replaces the value in place.
\<close>

fun mapSet :: "(string \<times> 'v) list \<Rightarrow> string \<Rightarrow> 'v \<Rightarrow> (string \<times> 'v) list" where
  "mapSet [] k v = [(k, v)]"
| "mapSet ((k', v') # m) k v = (if k' = k then (k', v) # m else (k', v') # mapSet m k v)"

definition setAdd :: "string list \<Rightarrow> string \<Rightarrow> string list" where
  "setAdd xs x = (if x \<in> set xs then xs else xs @ [x])"

definition newSet :: "string list \<Rightarrow> string list" where
  "newSet xs = foldl setAdd [] xs"

subsection \<open>Relevance and type\<close>

definition isAddressInvolved :: "account_key list \<Rightarrow> string \<Rightarrow> bool" where
  "isAddressInvolved accounts monitored =
     (let isInAccounts = list_ex (\<lambda>account. keyToString account = monitored) accounts;
          isFeePayer = (case accounts of [] \<Rightarrow> False
                        | firstAccount # _ \<Rightarrow> keyToString firstAccount = monitored)
      in isInAccounts \<or> isFeePayer)"

fun determineTransactionType :: "instruction list \<Rightarrow> string" where
  "determineTransactionType [] = UNKNOWN"
| "determineTransactionType (i # rest) =
     (if programId i \<in> set dexProgramIds then SWAP
      else if programId i = SYSTEM_PROGRAM then TRANSFER
      else if programId i = TOKEN_PROGRAM then TRANSFER
      else determineTransactionType rest)"

fun determineDEXPlatform :: "instruction list \<Rightarrow> string" where
  "determineDEXPlatform [] = ''Unknown DEX''"
| "determineDEXPlatform (i # rest) =
     (if programId i = JUPITER_V6 \<or> programId i = JUPITER_V4 then ''Jupiter Aggregator''
      else if programId i = RAYDIUM_AMM \<or> programId i = RAYDIUM_CLMM then ''Raydium''
      else if programId i = ORCA_WHIRLPOOL then ''Orca''
      else if programId i = METEORA then ''Meteora''
      else if programId i = SERUM_V3 then ''Serum''
      else if programId i = OPENBOOK then ''OpenBook''
      else determineDEXPlatform rest)"

subsection \<open>Balance changes\<close>

text \<open>\<open>accounts.findIndex(account => account === monitoredAddress)\<close>; \<open>None\<close> is -1.\<close>

fun findIndex :: "account_key list \<Rightarrow> string \<Rightarrow> nat option" where
  "findIndex [] a = None"
| "findIndex (k # ks) a =
     (if strictEq k a then Some 0
      else (case findIndex ks a of None \<Rightarrow> None | Some i \<Rightarrow> Some (Suc i)))"

text \<open>The \<open>forEach\<close> that fills a balance map with the entries owned by the address.\<close>

definition ownedBalanceMap :: "token_balance list \<Rightarrow> string \<Rightarrow> (string \<times> nat) list" where
  "ownedBalanceMap balances monitored =
     foldl (\<lambda>m b. if owner b = monitored
                   then mapSet m (token_balance.mint b) (token_balance.amount b) else m)
       [] balances"

text \<open>\<open>parseInt(map.get(mint) || '0')\<close>.\<close>

definition amountOf :: "(string \<times> nat) list \<Rightarrow> string \<Rightarrow> int" where
  "amountOf m k = (case map_of m k of None \<Rightarrow> parseInt 0 | Some a \<Rightarrow> parseInt a)"

definition changeOf :: "(string \<times> nat) list \<Rightarrow> (string \<times> nat) list \<Rightarrow> string \<Rightarrow> token_change" where
  "changeOf preMap postMap m =
     (let pre = amountOf preMap m; post = amountOf postMap m
      in \<lparr>token_change.mint = m, change = numSub post pre, preAmount = pre, postAmount = post\<rparr>)"

definition extractTokenChanges ::
  "token_balance list \<Rightarrow> token_balance list \<Rightarrow> account_key list \<Rightarrow> string \<Rightarrow> token_change list" where
  "extractTokenChanges pre post accounts monitored =
     (case findIndex accounts monitored of
        None \<Rightarrow> []
      | Some _ \<Rightarrow>
          let preBalanceMap = ownedBalanceMap pre monitored;
              postBalanceMap = ownedBalanceMap post monitored;
              allMints = newSet (map fst preBalanceMap @ map fst postBalanceMap)
          in filter (\<lambda>c. change c \<noteq> 0) (map (changeOf preBalanceMap postBalanceMap) allMints))"

text \<open>
  \<open>balances[i] || 0\<close>: the lamports at an index are a Number, already rounded to
  binary64 when the answer of the node was parsed; an index past the end reads
  \<open>undefined\<close>.
\<close>

definition lamportsAt :: "nat list \<Rightarrow> nat \<Rightarrow> int" where
  "lamportsAt xs i = (if i < length xs then toNumber (int (xs ! i)) else 0)"

definition calculateSOLChange :: "account_key list \<Rightarrow> nat list \<Rightarrow> nat list \<Rightarrow> string \<Rightarrow> int" where
  "calculateSOLChange accounts pre post monitored =
     (case findIndex accounts monitored of
        None \<Rightarrow> 0
      | Some i \<Rightarrow> numSub (lamportsAt post i) (lamportsAt pre i))"

subsection \<open>Formatting and USD value\<close>

text \<open>The parser's own \<open>formatTokenAmount\<close>: nine decimals whatever the mint.\<close>

definition formatTokenAmount :: "formatters \<Rightarrow> int \<Rightarrow> string \<Rightarrow> string" where
  "formatTokenAmount fmt amt m = toFixed6 fmt (of_int amt / 10 ^ 9)"

definition calculateUSDValue :: "services \<Rightarrow> int \<Rightarrow> string \<Rightarrow> rat option" where
  "calculateUSDValue svc amt m =
     (case getTokenPrice svc m of
        None \<Rightarrow> None
      | Some priceData \<Rightarrow>
          Some (of_int amt / 10 ^ getTokenDecimals svc m * price_data.price priceData))"

text \<open>\<open>usd ? formatUSD(usd) : 'Unknown'\<close>: null and zero are falsy.\<close>

definition usdText :: "formatters \<Rightarrow> rat option \<Rightarrow> string" where
  "usdText fmt usd =
     (case usd of None \<Rightarrow> ''Unknown''
      | Some u \<Rightarrow> if u = 0 then ''Unknown'' else formatUSD fmt u)"

text \<open>\<open>info?.metadata?.symbol || 'UNKNOWN'\<close>.\<close>

definition symbolOf :: "token_info \<Rightarrow> string" where
  "symbolOf info =
     (case metadata info of None \<Rightarrow> ''UNKNOWN''
      | Some md \<Rightarrow> if token_metadata.symbol md = [] then ''UNKNOWN'' else token_metadata.symbol md)"

definition briefOf :: "token_info \<Rightarrow> string \<Rightarrow> token_brief option" where
  "briefOf info sy =
     (case token_info.price info of
        None \<Rightarrow> None
      | Some p \<Rightarrow> Some \<lparr>token_brief.symbol = sy, token_brief.price = priceFormatted p,
                        marketCap = marketCapFormatted p\<rparr>)"

text \<open>
  The separator of the swap text: a space, the three characters U+00E2, U+2020 and U+2019
  of the source's literal in UTF-8, a space.
\<close>

definition arrow :: string where
  "arrow =
     [CHR 0x20, CHR 0xC3, CHR 0xA2, CHR 0xE2, CHR 0x80, CHR 0xA0, CHR 0xE2, CHR 0x80, CHR 0x99,
      CHR 0x20]"

subsection \<open>Type-specific parsers\<close>

text \<open>\<open>balances || []\<close>.\<close>

definition orEmpty :: "'a list option \<Rightarrow> 'a list" where
  "orEmpty xs = (case xs of None \<Rightarrow> [] | Some ys \<Rightarrow> ys)"

definition legOf :: "services \<Rightarrow> token_change \<Rightarrow> token_info \<Rightarrow> int \<Rightarrow> swap_leg" where
  "legOf svc c info amt =
     \<lparr>swap_leg.mint = token_change.mint c, swap_leg.symbol = symbolOf info,
      swap_leg.amount = amt, usdValue = calculateUSDValue svc amt (token_change.mint c)\<rparr>"

definition parseSwapTransaction ::
  "formatters \<Rightarrow> services \<Rightarrow> transaction \<Rightarrow> string \<Rightarrow> parsed_data option" where
  "parseSwapTransaction fmt svc tx monitored =
     (case meta tx of
        None \<Rightarrow> None
      | Some md \<Rightarrow>
          let plat = determineDEXPlatform (instructions tx);
              tokenChanges = extractTokenChanges
                (orEmpty (preTokenBalances md))
                (orEmpty (postTokenBalances md))
                (accountKeys tx) monitored
          in if length tokenChanges < 2 then None
             else
               let tokenInfos = map (\<lambda>c. (c, getTokenInfo svc (token_change.mint c))) tokenChanges
               in (case (find (\<lambda>t. change (fst t) < 0) tokenInfos,
                         find (\<lambda>t. 0 < change (fst t)) tokenInfos) of
                     (Some (inC, inInfo), Some (outC, outInfo)) \<Rightarrow>
                       let inputAmount = \<bar>change inC\<bar>;
                           outputAmount = change outC;
                           inLeg = legOf svc inC inInfo inputAmount;
                           outLeg = legOf svc outC outInfo outputAmount
                       in Some (emptyParsed
                            \<lparr>platform := plat,
                             swap := Some (formatTokenAmount fmt inputAmount (token_change.mint inC)
                                           @ arrow
                                           @ formatTokenAmount fmt outputAmount (token_change.mint outC)),
                             inputToken := Some inLeg,
                             outputToken := Some outLeg,
                             val := usdText fmt (usdValue inLeg),
                             tokenInfo := briefOf outInfo (symbolOf outInfo)\<rparr>)
                   | _ \<Rightarrow> None))"

text \<open>The event of a transfer: the sign prefix, the magnitude, the direction.\<close>

definition signPrefix :: "int \<Rightarrow> string" where
  "signPrefix d = (if 0 < d then ''+'' else [])"

definition direction :: "int \<Rightarrow> string" where
  "direction d = (if 0 < d then ''Received'' else ''Sent'')"

definition parseTransferTransaction ::
  "formatters \<Rightarrow> services \<Rightarrow> transaction \<Rightarrow> string \<Rightarrow> parsed_data option" where
  "parseTransferTransaction fmt svc tx monitored =
     (case meta tx of
        None \<Rightarrow> None
      | Some md \<Rightarrow>
          let solChange = calculateSOLChange (accountKeys tx) (preBalances md) (postBalances md)
                            monitored
          in if solChange \<noteq> 0 then
               let solUSD = calculateUSDValue svc \<bar>solChange\<bar> SOL_MINT
               in Some (emptyParsed
                    \<lparr>platform := ''Solana Transfer'',
                     transfer := Some (signPrefix solChange
                                       @ formatTokenAmount fmt \<bar>solChange\<bar> SOL_MINT),
                     val := usdText fmt solUSD,
                     type := Some (direction solChange)\<rparr>)
             else
               (case extractTokenChanges
                       (orEmpty (preTokenBalances md))
                       (orEmpty (postTokenBalances md))
                       (accountKeys tx) monitored of
                  [] \<Rightarrow> None
                | tokenChange # _ \<Rightarrow>
                    let info = getTokenInfo svc (token_change.mint tokenChange);
                        tokenUSD = calculateUSDValue svc \<bar>change tokenChange\<bar>
                                     (token_change.mint tokenChange)
                    in Some (emptyParsed
                         \<lparr>platform := ''Token Transfer'',
                          transfer := Some (signPrefix (change tokenChange)
                                            @ formatTokenAmount fmt \<bar>change tokenChange\<bar>
                                                (token_change.mint tokenChange)),
                          val := usdText fmt tokenUSD,
                          type := Some (direction (change tokenChange)),
                          tokenInfo := briefOf info (symbolOf info)\<rparr>)))"

definition parseDeFiTransaction ::
  "formatters \<Rightarrow> services \<Rightarrow> transaction \<Rightarrow> string \<Rightarrow> parsed_data option" where
  "parseDeFiTransaction fmt svc tx monitored =
     Some (emptyParsed
       \<lparr>platform := determineDEXPlatform (instructions tx),
        defi := Some ''DeFi Interaction'',
        val := ''Unknown''\<rparr>)"

text \<open>The platform label of an unknown transaction: the last matching instruction wins.\<close>

definition unknownPlatform :: "instruction list \<Rightarrow> string" where
  "unknownPlatform ins =
     foldl (\<lambda>plat i.
              if programId i = SYSTEM_PROGRAM then ''System Program''
              else if programId i = TOKEN_PROGRAM then ''SPL Token Program''
              else if programId i = ATA_PROGRAM then ''Associated Token Account''
              else plat)
       ''Unknown'' ins"

definition parseUnknownTransaction ::
  "formatters \<Rightarrow> services \<Rightarrow> transaction \<Rightarrow> string \<Rightarrow> parsed_data option" where
  "parseUnknownTransaction fmt svc tx monitored =
     Some (emptyParsed
       \<lparr>platform := unknownPlatform (instructions tx),
        activity := Some ''Transaction Detected'',
        val := ''Unknown'',
        type := Some ''UNKNOWN''\<rparr>)"

subsection \<open>The classifier\<close>

definition parseTransaction ::
  "formatters \<Rightarrow> services \<Rightarrow> transaction \<Rightarrow> string \<Rightarrow> parsed_data option" where
  "parseTransaction fmt svc tx monitored =
     (if meta tx = None then None
      else if \<not> isAddressInvolved (accountKeys tx) monitored then None
      else
        let transactionType = determineTransactionType (instructions tx);
            parsedData =
              (if transactionType = SWAP then parseSwapTransaction fmt svc tx monitored
               else if transactionType = TRANSFER then parseTransferTransaction fmt svc tx monitored
               else if transactionType = DEFI then parseDeFiTransaction fmt svc tx monitored
               else parseUnknownTransaction fmt svc tx monitored)
        in (case parsedData of
              None \<Rightarrow> None
            | Some pd \<Rightarrow>
                Some (pd\<lparr>signature := (case signatures tx of [] \<Rightarrow> None | s # _ \<Rightarrow> Some s),
                         parsed_data.blockTime := transaction.blockTime tx,
                         type := Some transactionType,
                         monitoredAddress := Some monitored\<rparr>)))"

section \<open>The monitor\<close>

subsection \<open>Chain data source and storage\<close>

datatype rpc_error = Unavailable

record sig_info =
  signature :: string
  blockTime :: "nat option"

text \<open>
  The RPC node at the time of a call: the confirmed signatures of an address, newest
  first, and the transaction of a signature (\<open>None\<close> is the RPC's null).  A transport
  failure is \<open>Inl\<close>.
\<close>

record chain =
  signaturesOf :: "string \<Rightarrow> rpc_error + sig_info list"
  transactionOf :: "string \<Rightarrow> rpc_error + transaction option"

definition getSignaturesForAddress :: "chain \<Rightarrow> string \<Rightarrow> nat \<Rightarrow> rpc_error + sig_info list" where
  "getSignaturesForAddress c address limit =
     (case signaturesOf c address of Inl e \<Rightarrow> Inl e | Inr infos \<Rightarrow> Inr (take limit infos))"

definition getTransaction :: "chain \<Rightarrow> string \<Rightarrow> rpc_error + transaction option" where
  "getTransaction c sg = transactionOf c sg"

text \<open>
  The two JSON files of the storage service, without their timestamps.  Reading and
  writing them is taken to succeed.
\<close>

record processed_tx =
  signature :: string
  type :: "string option"
  address :: string
  platform :: string

record stored_address =
  address :: string
  label :: string

fun replaceFirst :: "('a \<Rightarrow> bool) \<Rightarrow> 'a \<Rightarrow> 'a list \<Rightarrow> 'a list" where
  "replaceFirst P y [] = []"
| "replaceFirst P y (x # xs) = (if P x then y # xs else x # replaceFirst P y xs)"

definition addProcessedTransaction :: "processed_tx \<Rightarrow> processed_tx list \<Rightarrow> processed_tx list" where
  "addProcessedTransaction entry transactions =
     (let same = (\<lambda>t. processed_tx.signature t = processed_tx.signature entry);
          updated = (if list_ex same transactions then replaceFirst same entry transactions
                     else transactions @ [entry])
      in if 1000 < length updated then drop (length updated - 1000) updated else updated)"

definition addMonitoredAddress :: "stored_address \<Rightarrow> stored_address list \<Rightarrow> stored_address list" where
  "addMonitoredAddress entry addresses =
     (let same = (\<lambda>a. stored_address.address a = stored_address.address entry)
      in if list_ex same addresses then replaceFirst same entry addresses
         else addresses @ [entry])"

subsection \<open>State and observable effects\<close>

text \<open>
  What a handler does besides changing the state, in the order it does it: the RPC
  requests, the calls of the classifier (for the signature being processed), the events
  handed to the logger, the subscription messages sent, the errors caught and logged.
\<close>

datatype effect =
    RpcGetSignatures string nat
  | RpcGetTransaction string
  | ClassifierCall string string
  | Emitted string string parsed_data
  | WsSend string
  | LoggedError

text \<open>
  \<open>monitoredAddresses\<close> is the in-memory Set, in insertion order.  Each handler is
  modelled as running to completion; the interleaving of two handlers at their awaits
  is outside the model.
\<close>

record monitor =
  monitoredAddresses :: "string list"
  wsOpen :: bool
  storedAddresses :: "stored_address list"
  processedTransactions :: "processed_tx list"
  effects :: "effect list"

definition addEffect :: "effect \<Rightarrow> monitor \<Rightarrow> monitor" where
  "addEffect e st = st\<lparr>effects := effects st @ [e]\<rparr>"

definition isTransactionProcessed :: "monitor \<Rightarrow> string \<Rightarrow> bool" where
  "isTransactionProcessed st sg =
     list_ex (\<lambda>t. processed_tx.signature t = sg) (processedTransactions st)"

text \<open>
  The surroundings of a handler run.  \<open>validPublicKey\<close> says whether
  \<open>new PublicKey(address)\<close> of the Solana library accepts the string (a base58 rendering
  of 32 bytes); it throws otherwise.
\<close>

record env =
  validPublicKey :: "string \<Rightarrow> bool"
  formats :: formatters
  collab :: services
  node :: chain

subsection \<open>Handlers\<close>

definition processTransaction :: "env \<Rightarrow> string \<Rightarrow> string \<Rightarrow> monitor \<Rightarrow> monitor" where
  "processTransaction ev sg addr st =
     (let st1 = addEffect (RpcGetTransaction sg) st
      in case getTransaction (node ev) sg of
           Inl e \<Rightarrow> addEffect LoggedError st1
         | Inr None \<Rightarrow> st1
         | Inr (Some tx) \<Rightarrow>
             let st2 = addEffect (ClassifierCall sg addr) st1
             in (case parseTransaction (formats ev) (collab ev) tx addr of
                   None \<Rightarrow> st2
                 | Some parsedData \<Rightarrow>
                     (addEffect (Emitted sg addr parsedData) st2)
                       \<lparr>processedTransactions :=
                          addProcessedTransaction
                            \<lparr>processed_tx.signature = sg,
                             processed_tx.type = parsed_data.type parsedData,
                             processed_tx.address = addr,
                             processed_tx.platform = parsed_data.platform parsedData\<rparr>
                            (processedTransactions st2)\<rparr>))"

definition pollStep :: "env \<Rightarrow> string \<Rightarrow> monitor \<Rightarrow> sig_info \<Rightarrow> monitor" where
  "pollStep ev addr st sigInfo =
     (if isTransactionProcessed st (sig_info.signature sigInfo) then st
      else processTransaction ev (sig_info.signature sigInfo) addr st)"

definition pollRecentTransactions :: "env \<Rightarrow> string \<Rightarrow> monitor \<Rightarrow> monitor" where
  "pollRecentTransactions ev addr st =
     (if \<not> validPublicKey ev addr then addEffect LoggedError st
      else
        let st1 = addEffect (RpcGetSignatures addr 10) st
        in case getSignaturesForAddress (node ev) addr 10 of
             Inl e \<Rightarrow> addEffect LoggedError st1
           | Inr sigs \<Rightarrow> foldl (pollStep ev addr) st1 sigs)"

text \<open>\<open>log.includes(address)\<close>.\<close>

fun stringIncludes :: "string \<Rightarrow> string \<Rightarrow> bool" where
  "stringIncludes [] a = (a = [])"
| "stringIncludes (c # cs) a = (prefix a (c # cs) \<or> stringIncludes cs a)"

text \<open>
  A message of the push channel, by its \<open>method\<close>.  An account notification carries
  \<open>params.subscription\<close>, the number the node gave the subscription it reports on, and
  \<open>result.value.owner\<close>, the owner field of the account's new state; the address of the
  account itself is not in the payload.  A logs notification carries
  \<open>result.value.signature\<close> and \<open>result.value.logs\<close>.
\<close>

datatype ws_message =
    AccountNotification nat string
  | LogsNotification string "string list"
  | OtherMessage

text \<open>The handler takes \<open>result.value.owner\<close> for the address.\<close>

definition handleAccountNotification :: "env \<Rightarrow> string \<Rightarrow> monitor \<Rightarrow> monitor" where
  "handleAccountNotification ev addr st =
     (if addr \<in> set (monitoredAddresses st) then pollRecentTransactions ev addr st
      else st)"

definition handleLogsNotification :: "env \<Rightarrow> string \<Rightarrow> string list \<Rightarrow> monitor \<Rightarrow> monitor" where
  "handleLogsNotification ev sg logs st =
     (case find (\<lambda>addr. list_ex (\<lambda>log. stringIncludes log addr) logs) (monitoredAddresses st) of
        None \<Rightarrow> st
      | Some addr \<Rightarrow> processTransaction ev sg addr st)"

fun handleWebSocketMessage :: "env \<Rightarrow> ws_message \<Rightarrow> monitor \<Rightarrow> monitor" where
  "handleWebSocketMessage ev (AccountNotification subscription ownerField) st =
     handleAccountNotification ev ownerField st"
| "handleWebSocketMessage ev (LogsNotification sg logs) st = handleLogsNotification ev sg logs st"
| "handleWebSocketMessage ev OtherMessage st = st"

text \<open>One firing of the polling timer: every monitored address in turn.\<close>

definition pollingTick :: "env \<Rightarrow> monitor \<Rightarrow> monitor" where
  "pollingTick ev st = foldl (\<lambda>s addr. pollRecentTransactions ev addr s) st (monitoredAddresses st)"

datatype add_error = InvalidPublicKey

definition addAddress :: "env \<Rightarrow> string \<Rightarrow> string \<Rightarrow> monitor \<Rightarrow> (add_error + unit) \<times> monitor" where
  "addAddress ev addr lbl st =
     (if \<not> validPublicKey ev addr then (Inl InvalidPublicKey, addEffect LoggedError st)
      else
        let st1 = st\<lparr>storedAddresses :=
                      addMonitoredAddress \<lparr>stored_address.address = addr, label = lbl\<rparr>
                        (storedAddresses st)\<rparr>;
            st2 = st1\<lparr>monitoredAddresses := setAdd (monitoredAddresses st1) addr\<rparr>;
            st3 = (if wsOpen st2 then addEffect (WsSend addr) st2 else st2)
        in (Inr (), st3))"

text \<open>A run of the monitor: timer firings and push messages, each with its surroundings.\<close>

datatype event = TimerFired | Pushed ws_message

fun step :: "monitor \<Rightarrow> env \<times> event \<Rightarrow> monitor" where
  "step st (ev, TimerFired) = pollingTick ev st"
| "step st (ev, Pushed msg) = handleWebSocketMessage ev msg st"

definition run :: "(env \<times> event) list \<Rightarrow> monitor \<Rightarrow> monitor" where
  "run evs st = foldl step st evs"

section \<open>Notions used to state the properties\<close>

subsection \<open>Balances as the metadata reports them\<close>

text \<open>
  The entries of a balance list that belong to an owner and a mint, the raw total they
  hold, and the change of that total over the transaction.  These are read off the
  metadata directly, not through the parser's maps.
\<close>

definition ownedEntries :: "token_balance list \<Rightarrow> string \<Rightarrow> string \<Rightarrow> token_balance list" where
  "ownedEntries balances a m =
     filter (\<lambda>b. owner b = a \<and> token_balance.mint b = m) balances"

definition ownedTotal :: "token_balance list \<Rightarrow> string \<Rightarrow> string \<Rightarrow> nat" where
  "ownedTotal balances a m = sum_list (map token_balance.amount (ownedEntries balances a m))"

definition balanceDelta :: "tx_meta \<Rightarrow> string \<Rightarrow> string \<Rightarrow> int" where
  "balanceDelta md a m =
     int (ownedTotal (orEmpty (postTokenBalances md)) a m)
       - int (ownedTotal (orEmpty (preTokenBalances md)) a m)"

text \<open>The owner has at most one token account of each mint in the list.\<close>

definition oneAccountPerMint :: "token_balance list \<Rightarrow> string \<Rightarrow> bool" where
  "oneAccountPerMint balances a =
     distinct (map token_balance.mint (filter (\<lambda>b. owner b = a) balances))"

text \<open>
  The mints of the owner's entries, earlier balances first, each at its first occurrence.
\<close>

definition firstOccurrences :: "'a list \<Rightarrow> 'a list" where
  "firstOccurrences xs = rev (remdups (rev xs))"

definition ownedMints :: "tx_meta \<Rightarrow> string \<Rightarrow> string list" where
  "ownedMints md a =
     firstOccurrences
       (map token_balance.mint (filter (\<lambda>b. owner b = a) (orEmpty (preTokenBalances md)))
        @ map token_balance.mint (filter (\<lambda>b. owner b = a) (orEmpty (postTokenBalances md))))"

text \<open>The token changes both the swap and the transfer parser compute for a transaction.\<close>

definition tokenChangesOf :: "transaction \<Rightarrow> tx_meta \<Rightarrow> string \<Rightarrow> token_change list" where
  "tokenChangesOf tx md a =
     extractTokenChanges (orEmpty (preTokenBalances md)) (orEmpty (postTokenBalances md))
       (accountKeys tx) a"

subsection \<open>Events\<close>

text \<open>
  What an event says about the chain alone: the event without the fields filled from the
  price and metadata collaborators (USD values, price summary, symbols).
\<close>

definition legFacts :: "swap_leg \<Rightarrow> swap_leg" where
  "legFacts l = l\<lparr>swap_leg.symbol := [], usdValue := None\<rparr>"

definition chainFacts :: "parsed_data \<Rightarrow> parsed_data" where
  "chainFacts pd =
     pd\<lparr>val := [], tokenInfo := None,
        inputToken := map_option legFacts (inputToken pd),
        outputToken := map_option legFacts (outputToken pd)\<rparr>"

subsection \<open>Effects\<close>

text \<open>
  Readings of the effects: the addresses whose signatures were requested, the signatures
  whose transaction was requested, the signatures the classifier was called for and the
  signatures an event was emitted for, each in the order of occurrence.
\<close>

fun polledAddresses :: "effect list \<Rightarrow> string list" where
  "polledAddresses [] = []"
| "polledAddresses (RpcGetSignatures a n # es) = a # polledAddresses es"
| "polledAddresses (e # es) = polledAddresses es"

fun fetchedSignatures :: "effect list \<Rightarrow> string list" where
  "fetchedSignatures [] = []"
| "fetchedSignatures (RpcGetTransaction s # es) = s # fetchedSignatures es"
| "fetchedSignatures (e # es) = fetchedSignatures es"

fun classifiedSignatures :: "effect list \<Rightarrow> string list" where
  "classifiedSignatures [] = []"
| "classifiedSignatures (ClassifierCall s a # es) = s # classifiedSignatures es"
| "classifiedSignatures (e # es) = classifiedSignatures es"

fun emittedSignatures :: "effect list \<Rightarrow> string list" where
  "emittedSignatures [] = []"
| "emittedSignatures (Emitted s a pd # es) = s # emittedSignatures es"
| "emittedSignatures (e # es) = emittedSignatures es"

text \<open>The node returns a transaction for the signature.\<close>

definition fetchable :: "env \<Rightarrow> string \<Rightarrow> bool" where
  "fetchable ev sg = (case transactionOf (node ev) sg of Inr (Some tx) \<Rightarrow> True | _ \<Rightarrow> False)"

text \<open>The node returns a transaction for the signature and the classifier maps it to an event.\<close>

definition eventful :: "env \<Rightarrow> string \<Rightarrow> string \<Rightarrow> bool" where
  "eventful ev a sg =
     (case transactionOf (node ev) sg of
        Inr (Some tx) \<Rightarrow> parseTransaction (formats ev) (collab ev) tx a \<noteq> None
      | _ \<Rightarrow> False)"

text \<open>Whatever transaction the node returns for the signature, it is the given one.\<close>

definition servesOnly :: "env \<Rightarrow> string \<Rightarrow> transaction \<Rightarrow> bool" where
  "servesOnly ev sg tx =
     (case transactionOf (node ev) sg of Inr (Some t) \<Rightarrow> t = tx | _ \<Rightarrow> True)"

text \<open>What \<open>processTransaction\<close> adds to the effects, by the outcome of the fetch.\<close>

definition processEffects :: "env \<Rightarrow> string \<Rightarrow> string \<Rightarrow> effect list" where
  "processEffects ev sg a =
     (case getTransaction (node ev) sg of
        Inl e \<Rightarrow> [RpcGetTransaction sg, LoggedError]
      | Inr None \<Rightarrow> [RpcGetTransaction sg]
      | Inr (Some tx) \<Rightarrow>
          (case parseTransaction (formats ev) (collab ev) tx a of
             None \<Rightarrow> [RpcGetTransaction sg, ClassifierCall sg a]
           | Some pd \<Rightarrow> [RpcGetTransaction sg, ClassifierCall sg a, Emitted sg a pd]))"

subsection \<open>The key constructor of the Solana library\<close>

text \<open>
  \<open>new PublicKey(string)\<close> decodes the string as base58 and accepts it when the result
  has 32 bytes: each leading \<open>1\<close> is a zero byte, the rest is the big-endian number the
  digits spell.  It is used below as the validity test of the example surroundings.
\<close>

definition base58Alphabet :: string where
  "base58Alphabet = ''123456789ABCDEFGHJKLMNPQRSTUVWXYZabcdefghijkmnopqrstuvwxyz''"

fun indexIn :: "'a list \<Rightarrow> 'a \<Rightarrow> nat option" where
  "indexIn [] x = None"
| "indexIn (y # ys) x = (if y = x then Some 0 else map_option Suc (indexIn ys x))"

definition base58Value :: "string \<Rightarrow> nat option" where
  "base58Value s =
     foldl (\<lambda>acc c. case acc of None \<Rightarrow> None
                     | Some v \<Rightarrow> map_option (\<lambda>d. v * 58 + d) (indexIn base58Alphabet c))
       (Some 0) s"

fun byteLength :: "nat \<Rightarrow> nat" where
  "byteLength n = (if n = 0 then 0 else Suc (byteLength (n div 256)))"

declare byteLength.simps [simp del]

definition decodedLength :: "string \<Rightarrow> nat option" where
  "decodedLength s =
     map_option (\<lambda>v. length (takeWhile (\<lambda>c. c = CHR ''1'') s) + byteLength v) (base58Value s)"

definition demoValid :: "string \<Rightarrow> bool" where
  "demoValid s = (decodedLength s = Some 32)"

subsection \<open>Example inputs\<close>

text \<open>
  Stand-ins for the formatters and two states of the collaborators; transactions of a
  wallet \<open>W\<close>: a swap of A for C and a swap with two outgoing legs.
\<close>

definition demoFormatters :: formatters where
  "demoFormatters = \<lparr>toFixed6 = (\<lambda>q. ''n''), formatUSD = (\<lambda>q. ''$'')\<rparr>"

definition noServices :: services where
  "noServices = \<lparr>getTokenPrice = (\<lambda>m. None), getTokenMetadata = (\<lambda>m. None)\<rparr>"

definition pricedServices :: services where
  "pricedServices =
     \<lparr>getTokenPrice = (\<lambda>m. Some \<lparr>price_data.price = 2, priceFormatted = ''$2.00'',
                                    marketCapFormatted = ''$0.00''\<rparr>),
      getTokenMetadata = (\<lambda>m. None)\<rparr>"

definition held :: "nat \<Rightarrow> string \<Rightarrow> nat \<Rightarrow> token_balance" where
  "held i m n =
     \<lparr>accountIndex = i, owner = ''W'', token_balance.mint = m, token_balance.amount = n\<rparr>"

definition twoLegMeta :: tx_meta where
  "twoLegMeta =
     \<lparr>preBalances = [10], postBalances = [10],
      preTokenBalances = Some [held 1 ''A'' 100],
      postTokenBalances = Some [held 1 ''A'' 0, held 2 ''C'' 10]\<rparr>"

definition twoLegSwap :: transaction where
  "twoLegSwap =
     \<lparr>signatures = [''S2''], transaction.blockTime = Some 2,
      instructions = [\<lparr>programId = JUPITER_V6\<rparr>], accountKeys = [KeyString ''W''],
      meta = Some twoLegMeta\<rparr>"

definition threeLegMeta :: tx_meta where
  "threeLegMeta =
     \<lparr>preBalances = [10], postBalances = [10],
      preTokenBalances = Some [held 1 ''A'' 100, held 2 ''B'' 50],
      postTokenBalances = Some [held 1 ''A'' 0, held 2 ''B'' 0, held 3 ''C'' 10]\<rparr>"

definition threeLegSwap :: transaction where
  "threeLegSwap =
     \<lparr>signatures = [''S3''], transaction.blockTime = Some 3,
      instructions = [\<lparr>programId = JUPITER_V6\<rparr>], accountKeys = [KeyString ''W''],
      meta = Some threeLegMeta\<rparr>"



text \<open>
  Two monitored addresses of 32 bytes, and a transfer of four lamports to the first, once
  with the account key as a string and once as a key object.
\<close>

definition walletKey :: string where
  "walletKey = ''9WzDXwBbmkg8ZTbNMqUxvQRAyrZzDsGYdLVL9zYtAWWM''"

definition payerKey :: string where
  "payerKey = ''5Q544fKrFoe6tsEbD7S8EmxGTJYAKtTVhAW5Q5pge4j1''"

definition receivedMeta :: tx_meta where
  "receivedMeta =
     \<lparr>preBalances = [9, 2], postBalances = [5, 6], preTokenBalances = None,
      postTokenBalances = None\<rparr>"

definition stringKeyTransfer :: transaction where
  "stringKeyTransfer =
     \<lparr>signatures = [''S5''], transaction.blockTime = Some 5,
      instructions = [\<lparr>programId = SYSTEM_PROGRAM\<rparr>],
      accountKeys = [KeyString payerKey, KeyString walletKey],
      meta = Some receivedMeta\<rparr>"

definition objectKeyTransfer :: transaction where
  "objectKeyTransfer =
     \<lparr>signatures = [''S5''], transaction.blockTime = Some 5,
      instructions = [\<lparr>programId = SYSTEM_PROGRAM\<rparr>],
      accountKeys = [KeyObject payerKey, KeyObject walletKey],
      meta = Some receivedMeta\<rparr>"

text \<open>
  For the monitor: a node that returns three signatures for every address with a
  memo-like transaction of \<open>W\<close> behind each, and a monitor watching \<open>W\<close> before and after
  it has processed \<open>T1\<close>.
\<close>

definition memoTx :: "string \<Rightarrow> transaction" where
  "memoTx s =
     \<lparr>signatures = [s], transaction.blockTime = None, instructions = [],
      accountKeys = [KeyString ''W''],
      meta = Some \<lparr>preBalances = [], postBalances = [], preTokenBalances = None,
                   postTokenBalances = None\<rparr>\<rparr>"

definition memoEvent :: "string \<Rightarrow> parsed_data" where
  "memoEvent s =
     emptyParsed\<lparr>parsed_data.platform := ''Unknown'', activity := Some ''Transaction Detected'',
                 val := ''Unknown'', parsed_data.type := Some UNKNOWN,
                 parsed_data.signature := Some s, monitoredAddress := Some ''W''\<rparr>"

definition demoChain :: chain where
  "demoChain =
     \<lparr>signaturesOf = (\<lambda>a. Inr [\<lparr>sig_info.signature = ''T3'', sig_info.blockTime = Some 3\<rparr>,
                               \<lparr>sig_info.signature = ''T2'', sig_info.blockTime = Some 2\<rparr>,
                               \<lparr>sig_info.signature = ''T1'', sig_info.blockTime = Some 1\<rparr>]),
      transactionOf = (\<lambda>s. Inr (Some (memoTx s)))\<rparr>"

definition demoEnv :: env where
  "demoEnv = \<lparr>validPublicKey = demoValid, formats = demoFormatters, collab = noServices,
              node = demoChain\<rparr>"

definition idleMonitor :: monitor where
  "idleMonitor =
     \<lparr>monitoredAddresses = [''W''], wsOpen = False,
      storedAddresses = [\<lparr>stored_address.address = ''W'', label = []\<rparr>],
      processedTransactions = [], effects = []\<rparr>"

definition seenMonitor :: monitor where
  "seenMonitor =
     idleMonitor\<lparr>processedTransactions :=
       [\<lparr>processed_tx.signature = ''T1'', processed_tx.type = Some UNKNOWN,
         processed_tx.address = ''W'', processed_tx.platform = ''Unknown''\<rparr>]\<rparr>"

text \<open>
  The same for the 32-byte wallet: the node returns \<open>T3\<close>, \<open>T2\<close>, \<open>T1\<close>, newest first,
  with a memo-like transaction of the wallet behind each; the monitor watches the wallet,
  with an empty ledger or with \<open>T2\<close> in it.
\<close>

definition walletMemo :: "string \<Rightarrow> transaction" where
  "walletMemo s =
     \<lparr>signatures = [s], transaction.blockTime = None, instructions = [],
      accountKeys = [KeyString walletKey],
      meta = Some \<lparr>preBalances = [], postBalances = [], preTokenBalances = None,
                   postTokenBalances = None\<rparr>\<rparr>"

definition walletEvent :: "string \<Rightarrow> parsed_data" where
  "walletEvent s =
     emptyParsed\<lparr>parsed_data.platform := ''Unknown'', activity := Some ''Transaction Detected'',
                 val := ''Unknown'', parsed_data.type := Some UNKNOWN,
                 parsed_data.signature := Some s, monitoredAddress := Some walletKey\<rparr>"

definition newestFirst :: "sig_info list" where
  "newestFirst =
     [\<lparr>sig_info.signature = ''T3'', sig_info.blockTime = Some 3\<rparr>,
      \<lparr>sig_info.signature = ''T2'', sig_info.blockTime = Some 2\<rparr>,
      \<lparr>sig_info.signature = ''T1'', sig_info.blockTime = Some 1\<rparr>]"

definition liveEnv :: env where
  "liveEnv =
     \<lparr>validPublicKey = demoValid, formats = demoFormatters, collab = noServices,
      node = \<lparr>signaturesOf = (\<lambda>a. Inr newestFirst),
              transactionOf = (\<lambda>s. Inr (Some (walletMemo s)))\<rparr>\<rparr>"

definition walletMonitor :: monitor where
  "walletMonitor =
     \<lparr>monitoredAddresses = [walletKey], wsOpen = False,
      storedAddresses = [\<lparr>stored_address.address = walletKey, label = []\<rparr>],
      processedTransactions = [], effects = []\<rparr>"

definition walletSeenT2 :: monitor where
  "walletSeenT2 =
     walletMonitor\<lparr>processedTransactions :=
       [\<lparr>processed_tx.signature = ''T2'', processed_tx.type = Some UNKNOWN,
         processed_tx.address = walletKey, processed_tx.platform = ''Unknown''\<rparr>]\<rparr>"

text \<open>
  A transfer of one lamport out of the payer's account in which the wallet only takes
  part, behind the one signature the node returns for every address; monitors watching
  the wallet alone, and the wallet and the payer.
\<close>

definition quietTx :: transaction where
  "quietTx =
     \<lparr>signatures = [''Q1''], transaction.blockTime = Some 1,
      instructions = [\<lparr>programId = SYSTEM_PROGRAM\<rparr>],
      accountKeys = [KeyString payerKey, KeyString walletKey],
      meta = Some \<lparr>preBalances = [10, 7], postBalances = [9, 7], preTokenBalances = None,
                   postTokenBalances = None\<rparr>\<rparr>"

definition quietEnv :: env where
  "quietEnv =
     \<lparr>validPublicKey = demoValid, formats = demoFormatters, collab = noServices,
      node = \<lparr>signaturesOf = (\<lambda>a. Inr [\<lparr>sig_info.signature = ''Q1'', sig_info.blockTime = Some 1\<rparr>]),
              transactionOf = (\<lambda>s. Inr (Some quietTx))\<rparr>\<rparr>"

definition bothMonitor :: monitor where
  "bothMonitor = walletMonitor\<lparr>monitoredAddresses := [walletKey, payerKey]\<rparr>"

section \<open>Facts about the number model\<close>




lemma rnd53_small: "n < 2 ^ 53 \<Longrightarrow> rnd53 n = n"
  by (simp add: rnd53_def)




lemma toNumber_safe: "\<bar>x\<bar> < 2 ^ 53 \<Longrightarrow> toNumber x = x"
  by (auto simp: toNumber_def rnd53_small nat_less_iff)

lemma parseInt_safe: "a < 2 ^ 53 \<Longrightarrow> parseInt a = int a"
  unfolding parseInt_def by (rule toNumber_safe) simp

lemma numSub_safe: "\<bar>a - b\<bar> < 2 ^ 53 \<Longrightarrow> numSub a b = a - b"
  unfolding numSub_def by (rule toNumber_safe)

section \<open>Type determination\<close>

text \<open>
  C4, as the code has it.  The type is decided by the first instruction, in instruction
  order, whose program is a known DEX, the System program or the SPL Token program: SWAP
  if that instruction is a DEX one, TRANSFER otherwise, and UNKNOWN when no instruction
  matches.  A transaction holding both kinds is therefore SWAP only when the DEX
  instruction comes first.
\<close>

theorem determineTransactionType_first_match:
  "determineTransactionType ins =
     (case find (\<lambda>i. programId i \<in> set dexProgramIds \<or> programId i = SYSTEM_PROGRAM
                       \<or> programId i = TOKEN_PROGRAM) ins of
        None \<Rightarrow> UNKNOWN
      | Some i \<Rightarrow> if programId i \<in> set dexProgramIds then SWAP else TRANSFER)"
  by (induction ins) auto

lemmas program_ids =
  dexProgramIds_def SYSTEM_PROGRAM_def TOKEN_PROGRAM_def ATA_PROGRAM_def JUPITER_V6_def
  JUPITER_V4_def RAYDIUM_AMM_def RAYDIUM_CLMM_def ORCA_WHIRLPOOL_def METEORA_def
  SERUM_V3_def OPENBOOK_def

text \<open>The theorem at a DEX instruction followed by a System transfer, and at a lone memo.\<close>

theorem determineTransactionType_first_match_witness:
  "determineTransactionType [\<lparr>programId = JUPITER_V6\<rparr>, \<lparr>programId = SYSTEM_PROGRAM\<rparr>] = SWAP
   \<and> determineTransactionType [\<lparr>programId = ''Memo''\<rparr>] = UNKNOWN"
  using determineTransactionType_first_match
          [of "[\<lparr>programId = JUPITER_V6\<rparr>, \<lparr>programId = SYSTEM_PROGRAM\<rparr>]"]
        determineTransactionType_first_match [of "[\<lparr>programId = ''Memo''\<rparr>]"]
  by (simp add: program_ids)

text \<open>
  C4 as the claim words it fails: a System transfer ahead of a Jupiter instruction makes
  the transaction a TRANSFER, although it holds a DEX instruction.
\<close>

theorem dex_and_transfer_not_always_swap:
  "determineTransactionType [\<lparr>programId = SYSTEM_PROGRAM\<rparr>, \<lparr>programId = JUPITER_V6\<rparr>] = TRANSFER
   \<and> JUPITER_V6 \<in> set dexProgramIds \<and> TRANSFER \<noteq> SWAP"
  by (simp add: program_ids TRANSFER_def SWAP_def)

section \<open>Balance deltas\<close>

lemma map_of_mapSet: "map_of (mapSet m k v) k' = (if k' = k then Some v else map_of m k')"
  by (induction m k v rule: mapSet.induct) auto


section \<open>The classifier and its collaborators\<close>

lemma find_with_info:
  "find P (map (\<lambda>c. (c, g c)) xs) = map_option (\<lambda>c. (c, g c)) (find (\<lambda>c. P (c, g c)) xs)"
  by (induction xs) auto

lemma find_None_ex: "(find P xs = None) = (\<not> list_ex P xs)"
  by (induction xs) auto

lemma parseSwap_cases:
  assumes "meta tx = Some md"
  shows "parseSwapTransaction fmt svc tx a =
     (let tcs = tokenChangesOf tx md a in
      if length tcs < 2 then None
      else case (find (\<lambda>c. change c < 0) tcs, find (\<lambda>c. 0 < change c) tcs) of
             (Some inC, Some outC) \<Rightarrow>
                Some (emptyParsed
                            \<lparr>parsed_data.platform := determineDEXPlatform (instructions tx),
                             swap := Some (formatTokenAmount fmt \<bar>change inC\<bar> (token_change.mint inC)
                                           @ arrow
                                           @ formatTokenAmount fmt (change outC) (token_change.mint outC)),
                             inputToken := Some (legOf svc inC (getTokenInfo svc (token_change.mint inC)) \<bar>change inC\<bar>),
                             outputToken := Some (legOf svc outC (getTokenInfo svc (token_change.mint outC)) (change outC)),
                             val := usdText fmt (calculateUSDValue svc \<bar>change inC\<bar> (token_change.mint inC)),
                             tokenInfo := briefOf (getTokenInfo svc (token_change.mint outC)) (symbolOf (getTokenInfo svc (token_change.mint outC)))\<rparr>)
           | _ \<Rightarrow> None)"
proof (cases "find (\<lambda>c. change c < 0) (tokenChangesOf tx md a)")
  case None
  then show ?thesis
    using assms
    by (simp add: parseSwapTransaction_def Let_def find_with_info tokenChangesOf_def [symmetric])
next
  case inC: (Some inC)
  show ?thesis
  proof (cases "find (\<lambda>c. 0 < change c) (tokenChangesOf tx md a)")
    case None
    with inC show ?thesis
      using assms
      by (simp add: parseSwapTransaction_def Let_def find_with_info tokenChangesOf_def [symmetric])
  next
    case (Some outC)
    with inC show ?thesis
      using assms
      by (simp add: parseSwapTransaction_def Let_def find_with_info tokenChangesOf_def [symmetric]
            legOf_def)
  qed
qed

lemma swap_facts:
  "map_option chainFacts (parseSwapTransaction fmt svc tx a)
   = map_option chainFacts (parseSwapTransaction fmt svc' tx a)"
proof (cases "meta tx")
  case None
  then show ?thesis by (simp add: parseSwapTransaction_def)
next
  case (Some md)
  show ?thesis
    by (simp add: parseSwap_cases [OF Some] Let_def chainFacts_def legFacts_def legOf_def emptyParsed_def
          split: option.splits)
qed

lemma transfer_facts:
  "map_option chainFacts (parseTransferTransaction fmt svc tx a)
   = map_option chainFacts (parseTransferTransaction fmt svc' tx a)"
  by (simp add: parseTransferTransaction_def Let_def chainFacts_def emptyParsed_def
        split: option.splits list.splits)

lemma chainFacts_update:
  "chainFacts (pd\<lparr>parsed_data.signature := s, parsed_data.blockTime := b, parsed_data.type := t, monitoredAddress := m\<rparr>)
   = (chainFacts pd)\<lparr>parsed_data.signature := s, parsed_data.blockTime := b, parsed_data.type := t, monitoredAddress := m\<rparr>"
  by (simp add: chainFacts_def)

text \<open>
  C7, as the code has it.  The classifier asks the price and metadata collaborators, so
  its result is a function of the transaction, the address and their answers.  Whether it
  returns null, and every field of the event except the USD values, the price summary
  and the symbols, do not depend on those answers.
\<close>

theorem classify_chain_facts_deterministic:
  "map_option chainFacts (parseTransaction fmt svc tx a)
   = map_option chainFacts (parseTransaction fmt svc' tx a)"
proof -
  define stamp where "stamp = (\<lambda>pd :: parsed_data.
      pd\<lparr>parsed_data.signature := (case signatures tx of [] \<Rightarrow> None | s # _ \<Rightarrow> Some s),
         parsed_data.blockTime := transaction.blockTime tx,
         parsed_data.type := Some (determineTransactionType (instructions tx)),
         monitoredAddress := Some a\<rparr>)"
  define dispatch where "dispatch = (\<lambda>s.
      if determineTransactionType (instructions tx) = SWAP then parseSwapTransaction fmt s tx a
      else if determineTransactionType (instructions tx) = TRANSFER then parseTransferTransaction fmt s tx a
      else if determineTransactionType (instructions tx) = DEFI then parseDeFiTransaction fmt s tx a
      else parseUnknownTransaction fmt s tx a)"
  have p: "parseTransaction fmt s tx a =
     (if meta tx = None \<or> \<not> isAddressInvolved (accountKeys tx) a then None
      else map_option stamp (dispatch s))" for s
    by (simp add: parseTransaction_def Let_def stamp_def dispatch_def split: option.splits)
  have d: "map_option chainFacts (dispatch svc) = map_option chainFacts (dispatch svc')"
    by (simp add: dispatch_def swap_facts [of fmt svc tx a svc']
          transfer_facts [of fmt svc tx a svc'] parseDeFiTransaction_def
          parseUnknownTransaction_def)
  have "map_option chainFacts (map_option stamp x) = map_option chainFacts (map_option stamp y)"
    if "map_option chainFacts x = map_option chainFacts y" for x y
    using that by (cases x; cases y) (simp_all add: chainFacts_update stamp_def)
  from this [OF d] show ?thesis by (simp add: p)
qed

section \<open>Swaps\<close>

lemma extractTokenChanges_nonzero:
  "c \<in> set (extractTokenChanges pre post accounts a) \<Longrightarrow> change c \<noteq> 0"
  by (auto simp: extractTokenChanges_def Let_def split: option.splits)

lemma find_Some_ex: "(\<exists>x. find P xs = Some x) = list_ex P xs"
  by (induction xs) auto

lemma parseTransaction_swap:
  assumes "determineTransactionType (instructions tx) = SWAP"
  shows "parseTransaction fmt svc tx a =
     (if meta tx = None \<or> \<not> isAddressInvolved (accountKeys tx) a then None
      else map_option (\<lambda>pd. pd\<lparr>parsed_data.signature := (case signatures tx of [] \<Rightarrow> None | s # _ \<Rightarrow> Some s),
                         parsed_data.blockTime := transaction.blockTime tx,
                         parsed_data.type := Some SWAP,
                         monitoredAddress := Some a\<rparr>) (parseSwapTransaction fmt svc tx a))"
  using assms by (simp add: parseTransaction_def Let_def split: option.splits)

lemma jupiter_is_dex: "JUPITER_V6 \<in> set dexProgramIds"
  by (simp add: dexProgramIds_def)

lemma twoLeg_parts:
  "meta twoLegSwap = Some twoLegMeta"
  "determineTransactionType (instructions twoLegSwap) = SWAP"
  "isAddressInvolved (accountKeys twoLegSwap) ''W''"
  by (simp_all add: twoLegSwap_def jupiter_is_dex isAddressInvolved_def)

lemma twoLeg_changes:
  "tokenChangesOf twoLegSwap twoLegMeta ''W'' =
     [\<lparr>token_change.mint = ''A'', change = - 100, preAmount = 100, postAmount = 0\<rparr>,
      \<lparr>token_change.mint = ''C'', change = 10, preAmount = 0, postAmount = 10\<rparr>]"
proof -
  have "ownedBalanceMap [held 1 ''A'' 100] ''W'' = [(''A'', 100)]"
       "ownedBalanceMap [held 1 ''A'' 0, held 2 ''C'' 10] ''W'' = [(''A'', 0), (''C'', 10)]"
       "newSet [''A'', ''A'', ''C''] = [''A'', ''C'']"
    by (simp_all add: ownedBalanceMap_def held_def newSet_def setAdd_def)
  then show ?thesis
    by (simp add: tokenChangesOf_def extractTokenChanges_def twoLegSwap_def twoLegMeta_def
          orEmpty_def changeOf_def amountOf_def parseInt_safe numSub_safe)
qed

lemma threeLeg_parts:
  "meta threeLegSwap = Some threeLegMeta"
  "determineTransactionType (instructions threeLegSwap) = SWAP"
  "isAddressInvolved (accountKeys threeLegSwap) ''W''"
  by (simp_all add: threeLegSwap_def jupiter_is_dex isAddressInvolved_def)

lemma threeLeg_changes:
  "tokenChangesOf threeLegSwap threeLegMeta ''W'' =
     [\<lparr>token_change.mint = ''A'', change = - 100, preAmount = 100, postAmount = 0\<rparr>,
      \<lparr>token_change.mint = ''B'', change = - 50, preAmount = 50, postAmount = 0\<rparr>,
      \<lparr>token_change.mint = ''C'', change = 10, preAmount = 0, postAmount = 10\<rparr>]"
proof -
  have "ownedBalanceMap [held 1 ''A'' 100, held 2 ''B'' 50] ''W'' = [(''A'', 100), (''B'', 50)]"
       "ownedBalanceMap [held 1 ''A'' 0, held 2 ''B'' 0, held 3 ''C'' 10] ''W''
          = [(''A'', 0), (''B'', 0), (''C'', 10)]"
       "newSet [''A'', ''B'', ''A'', ''B'', ''C''] = [''A'', ''B'', ''C'']"
    by (simp_all add: ownedBalanceMap_def held_def newSet_def setAdd_def)
  then show ?thesis
    by (simp add: tokenChangesOf_def extractTokenChanges_def threeLegSwap_def threeLegMeta_def
          orEmpty_def changeOf_def amountOf_def parseInt_safe numSub_safe)
qed

subsection \<open>The parser's maps against the metadata\<close>

lemma findIndex_None_iff: "(findIndex accounts a = None) = (KeyString a \<notin> set accounts)"
proof (induction accounts)
  case Nil
  show ?case by simp
next
  case (Cons k ks)
  then show ?case by (cases k) (auto split: option.splits)
qed


lemma owned_fold_lookup:
  "map_of (foldl (\<lambda>m b. if owner b = a
                          then mapSet m (token_balance.mint b) (token_balance.amount b) else m)
             m0 bs) k
   = (case ownedEntries bs a k of
        [] \<Rightarrow> map_of m0 k
      | e # es \<Rightarrow> Some (token_balance.amount (last (e # es))))"
proof (induction bs arbitrary: m0)
  case Nil
  show ?case by (simp add: ownedEntries_def)
next
  case (Cons b bs)
  show ?case
    by (simp add: Cons.IH ownedEntries_def map_of_mapSet split: list.splits)
qed

lemma ownedBalanceMap_lookup:
  "map_of (ownedBalanceMap bs a) k
   = (case ownedEntries bs a k of
        [] \<Rightarrow> None
      | e # es \<Rightarrow> Some (token_balance.amount (last (e # es))))"
  unfolding ownedBalanceMap_def by (simp add: owned_fold_lookup split: list.splits)

lemma amountOf_single:
  assumes "length (ownedEntries bs a k) \<le> 1"
  shows "amountOf (ownedBalanceMap bs a) k = parseInt (ownedTotal bs a k)"
proof (cases "ownedEntries bs a k")
  case Nil
  then show ?thesis by (simp add: amountOf_def ownedBalanceMap_lookup ownedTotal_def)
next
  case (Cons e es)
  with assms have "es = []" by simp
  with Cons show ?thesis by (simp add: amountOf_def ownedBalanceMap_lookup ownedTotal_def)
qed


lemma setAdd_fold_set: "set (foldl setAdd acc xs) = set acc \<union> set xs"
  by (induction xs arbitrary: acc) (auto simp: setAdd_def)

lemma newSet_set: "set (newSet xs) = set xs"
  by (simp add: newSet_def setAdd_fold_set)

lemma change_single:
  assumes "length (ownedEntries pre a m) \<le> 1" and "length (ownedEntries post a m) \<le> 1"
      and "ownedTotal pre a m < 2 ^ 53" and "ownedTotal post a m < 2 ^ 53"
  shows "changeOf (ownedBalanceMap pre a) (ownedBalanceMap post a) m
         = \<lparr>token_change.mint = m,
            change = int (ownedTotal post a m) - int (ownedTotal pre a m),
            preAmount = int (ownedTotal pre a m), postAmount = int (ownedTotal post a m)\<rparr>"
proof -
  have "int (ownedTotal pre a m) < 2 ^ 53" "int (ownedTotal post a m) < 2 ^ 53"
    using assms(3,4) by simp_all
  then have "\<bar>int (ownedTotal post a m) - int (ownedTotal pre a m)\<bar> < 2 ^ 53"
    by linarith
  then show ?thesis
    using assms
    by (simp add: changeOf_def Let_def amountOf_single parseInt_safe numSub_safe)
qed







lemma distinct_filter_le1:
  "distinct (map f xs) \<Longrightarrow> length (filter (\<lambda>x. f x = m) xs) \<le> 1"
proof (induction xs)
  case Nil
  show ?case by simp
next
  case (Cons x xs)
  show ?case
  proof (cases "f x = m")
    case True
    have "f y \<noteq> m" if "y \<in> set xs" for y
      using that True Cons.prems by (metis distinct.simps(2) image_eqI list.simps(9) set_map)
    then have "filter (\<lambda>y. f y = m) xs = []"
      by (simp add: filter_empty_conv)
    with True show ?thesis by simp
  next
    case False
    with Cons show ?thesis by simp
  qed
qed

lemma ownedEntries_nested:
  "ownedEntries bs a m = filter (\<lambda>b. token_balance.mint b = m) (filter (\<lambda>b. owner b = a) bs)"
  by (simp add: ownedEntries_def conj_commute)

lemma oneAccount_entries:
  "oneAccountPerMint bs a \<Longrightarrow> length (ownedEntries bs a m) \<le> 1"
  unfolding oneAccountPerMint_def ownedEntries_nested by (rule distinct_filter_le1)

lemma ownedTotal_bounded:
  assumes "length (ownedEntries bs a m) \<le> 1"
      and "\<forall>b \<in> set bs. owner b = a \<longrightarrow> token_balance.amount b < 2 ^ 53"
  shows "ownedTotal bs a m < 2 ^ 53"
proof (cases "ownedEntries bs a m")
  case Nil
  then show ?thesis by (simp add: ownedTotal_def)
next
  case (Cons e es)
  with assms(1) have es: "es = []" by simp
  have "e \<in> set (ownedEntries bs a m)" using Cons by simp
  then have "e \<in> set bs" "owner e = a" by (auto simp: ownedEntries_def)
  with assms(2) have "token_balance.amount e < 2 ^ 53" by blast
  with Cons es show ?thesis by (simp add: ownedTotal_def)
qed

lemma mapSet_keys: "map fst (mapSet m k v) = setAdd (map fst m) k"
  by (induction m k v rule: mapSet.induct) (auto simp: setAdd_def)

lemma owned_fold_keys:
  "map fst (foldl (\<lambda>m b. if owner b = a
                          then mapSet m (token_balance.mint b) (token_balance.amount b) else m)
              m0 bs)
   = foldl setAdd (map fst m0) (map token_balance.mint (filter (\<lambda>b. owner b = a) bs))"
  by (induction bs arbitrary: m0) (simp_all add: mapSet_keys)

lemma ownedBalanceMap_key_list:
  "map fst (ownedBalanceMap bs a) = newSet (map token_balance.mint (filter (\<lambda>b. owner b = a) bs))"
  by (simp add: ownedBalanceMap_def newSet_def owned_fold_keys)

lemma newSet_snoc: "newSet (xs @ [x]) = setAdd (newSet xs) x"
  by (simp add: newSet_def)

lemma newSet_firstOccurrences: "newSet xs = firstOccurrences xs"
proof (induction xs rule: rev_induct)
  case Nil
  show ?case by (simp add: newSet_def firstOccurrences_def)
next
  case (snoc x xs)
  have "set (newSet xs) = set xs" by (rule newSet_set)
  with snoc show ?case
    by (simp add: newSet_snoc setAdd_def firstOccurrences_def)
qed

lemma firstOccurrences_distinct: "distinct xs \<Longrightarrow> firstOccurrences xs = xs"
  by (simp add: firstOccurrences_def distinct_remdups_id)

lemma allMints_spec:
  assumes "oneAccountPerMint (orEmpty (preTokenBalances md)) a"
      and "oneAccountPerMint (orEmpty (postTokenBalances md)) a"
  shows "newSet (map fst (ownedBalanceMap (orEmpty (preTokenBalances md)) a)
                 @ map fst (ownedBalanceMap (orEmpty (postTokenBalances md)) a))
         = ownedMints md a"
  using assms
  by (simp add: ownedBalanceMap_key_list newSet_firstOccurrences firstOccurrences_distinct
        oneAccountPerMint_def ownedMints_def)

text \<open>A change of the list, as the metadata gives it.\<close>

lemma ownedMints_complete:
  assumes "balanceDelta md a m \<noteq> 0"
  shows "m \<in> set (ownedMints md a)"
proof -
  have "ownedEntries (orEmpty (preTokenBalances md)) a m \<noteq> []
        \<or> ownedEntries (orEmpty (postTokenBalances md)) a m \<noteq> []"
    using assms by (auto simp: balanceDelta_def ownedTotal_def)
  then show ?thesis
    by (auto simp: ownedMints_def firstOccurrences_def ownedEntries_def filter_empty_conv)
qed

lemma tokenChanges_spec:
  assumes "oneAccountPerMint (orEmpty (preTokenBalances md)) a"
      and "oneAccountPerMint (orEmpty (postTokenBalances md)) a"
      and "\<forall>b \<in> set (orEmpty (preTokenBalances md)) \<union> set (orEmpty (postTokenBalances md)).
             owner b = a \<longrightarrow> token_balance.amount b < 2 ^ 53"
  shows "tokenChangesOf tx md a =
           (if KeyString a \<in> set (accountKeys tx)
            then filter (\<lambda>c. change c \<noteq> 0)
                   (map (\<lambda>m. \<lparr>token_change.mint = m, change = balanceDelta md a m,
                               preAmount = int (ownedTotal (orEmpty (preTokenBalances md)) a m),
                               postAmount = int (ownedTotal (orEmpty (postTokenBalances md)) a m)\<rparr>)
                      (ownedMints md a))
            else [])"
proof -
  let ?pre = "orEmpty (preTokenBalances md)" and ?post = "orEmpty (postTokenBalances md)"
  have f: "changeOf (ownedBalanceMap ?pre a) (ownedBalanceMap ?post a) m
           = \<lparr>token_change.mint = m, change = balanceDelta md a m,
               preAmount = int (ownedTotal ?pre a m), postAmount = int (ownedTotal ?post a m)\<rparr>"
    for m
  proof -
    have l: "length (ownedEntries ?pre a m) \<le> 1" "length (ownedEntries ?post a m) \<le> 1"
      using assms(1,2) oneAccount_entries by blast+
    have "\<forall>b \<in> set ?pre. owner b = a \<longrightarrow> token_balance.amount b < 2 ^ 53"
         "\<forall>b \<in> set ?post. owner b = a \<longrightarrow> token_balance.amount b < 2 ^ 53"
      using assms(3) by blast+
    then have b: "ownedTotal ?pre a m < 2 ^ 53" "ownedTotal ?post a m < 2 ^ 53"
      using l ownedTotal_bounded by blast+
    from change_single [OF l b] show ?thesis by (simp add: balanceDelta_def)
  qed
  show ?thesis
  proof (cases "KeyString a \<in> set (accountKeys tx)")
    case False
    then have "findIndex (accountKeys tx) a = None" by (simp add: findIndex_None_iff)
    with False show ?thesis by (simp add: tokenChangesOf_def extractTokenChanges_def)
  next
    case True
    then obtain i where "findIndex (accountKeys tx) a = Some i"
      using findIndex_None_iff [of "accountKeys tx" a] by auto
    moreover have "changeOf (ownedBalanceMap ?pre a) (ownedBalanceMap ?post a)
           = (\<lambda>m. \<lparr>token_change.mint = m, change = balanceDelta md a m,
               preAmount = int (ownedTotal ?pre a m), postAmount = int (ownedTotal ?post a m)\<rparr>)"
      by (rule ext) (rule f)
    ultimately show ?thesis
      using True
      by (simp add: tokenChangesOf_def extractTokenChanges_def Let_def
            allMints_spec [OF assms(1,2)])
  qed
qed

lemma find_filter: "find P (filter Q xs) = find (\<lambda>x. Q x \<and> P x) xs"
  by (induction xs) auto

lemma find_map: "find P (map f xs) = map_option f (find (\<lambda>x. P (f x)) xs)"
  by (induction xs) auto

lemma involved_string_key: "KeyString a \<in> set accounts \<Longrightarrow> isAddressInvolved accounts a"
  by (force simp: isAddressInvolved_def list_ex_iff)

text \<open>
  C3, as the code has it.  Take a transaction typed SWAP in which the address has at most
  one token account of each mint, with raw amounts below \<open>2^53\<close>.  The classifier returns
  an event exactly when the address is among the account keys as a string and the changes
  of its per-mint balances include a negative and a positive one (hence two nonzero
  ones).  The input leg is then the first mint with a negative change and the output leg
  the first mint with a positive change, in the order in which the address's mints occur;
  further changes of either sign are ignored.
\<close>

theorem swap_reported_iff_both_signs:
  assumes "determineTransactionType (instructions tx) = SWAP"
      and "meta tx = Some md"
      and "oneAccountPerMint (orEmpty (preTokenBalances md)) a"
      and "oneAccountPerMint (orEmpty (postTokenBalances md)) a"
      and "\<forall>b \<in> set (orEmpty (preTokenBalances md)) \<union> set (orEmpty (postTokenBalances md)).
             owner b = a \<longrightarrow> token_balance.amount b < 2 ^ 53"
  shows "(parseTransaction fmt svc tx a \<noteq> None) =
           (KeyString a \<in> set (accountKeys tx)
            \<and> (\<exists>m. balanceDelta md a m < 0) \<and> (\<exists>m. 0 < balanceDelta md a m))
         \<and> (\<forall>e. parseTransaction fmt svc tx a = Some e \<longrightarrow>
               (\<exists>mi mo.
                  find (\<lambda>m. balanceDelta md a m < 0) (ownedMints md a) = Some mi
                  \<and> find (\<lambda>m. 0 < balanceDelta md a m) (ownedMints md a) = Some mo
                  \<and> map_option swap_leg.mint (inputToken e) = Some mi
                  \<and> map_option swap_leg.amount (inputToken e) = Some (- balanceDelta md a mi)
                  \<and> map_option swap_leg.mint (outputToken e) = Some mo
                  \<and> map_option swap_leg.amount (outputToken e) = Some (balanceDelta md a mo)
                  \<and> parsed_data.type e = Some SWAP))"
proof -
  let ?g = "\<lambda>m. \<lparr>token_change.mint = m, change = balanceDelta md a m,
                  preAmount = int (ownedTotal (orEmpty (preTokenBalances md)) a m),
                  postAmount = int (ownedTotal (orEmpty (postTokenBalances md)) a m)\<rparr>"
  let ?ms = "ownedMints md a"
  let ?tcs = "tokenChangesOf tx md a"
  note spec = tokenChanges_spec [OF assms(3,4,5), of tx]
  have neg_iff: "(\<exists>m. balanceDelta md a m < 0) = (\<exists>m. find (\<lambda>m. balanceDelta md a m < 0) ?ms = Some m)"
  proof
    assume "\<exists>m. balanceDelta md a m < 0"
    then obtain m where m: "balanceDelta md a m < 0" by blast
    then have "m \<in> set ?ms" using ownedMints_complete [of md a m] by simp
    with m have "list_ex (\<lambda>m. balanceDelta md a m < 0) ?ms" by (auto simp: list_ex_iff)
    then show "\<exists>m. find (\<lambda>m. balanceDelta md a m < 0) ?ms = Some m" by (simp add: find_Some_ex)
  next
    assume "\<exists>m. find (\<lambda>m. balanceDelta md a m < 0) ?ms = Some m"
    then show "\<exists>m. balanceDelta md a m < 0" by (auto simp: find_Some_iff)
  qed
  have pos_iff: "(\<exists>m. 0 < balanceDelta md a m) = (\<exists>m. find (\<lambda>m. 0 < balanceDelta md a m) ?ms = Some m)"
  proof
    assume "\<exists>m. 0 < balanceDelta md a m"
    then obtain m where m: "0 < balanceDelta md a m" by blast
    then have "m \<in> set ?ms" using ownedMints_complete [of md a m] by simp
    with m have "list_ex (\<lambda>m. 0 < balanceDelta md a m) ?ms" by (auto simp: list_ex_iff)
    then show "\<exists>m. find (\<lambda>m. 0 < balanceDelta md a m) ?ms = Some m" by (simp add: find_Some_ex)
  next
    assume "\<exists>m. find (\<lambda>m. 0 < balanceDelta md a m) ?ms = Some m"
    then show "\<exists>m. 0 < balanceDelta md a m" by (auto simp: find_Some_iff)
  qed
  show ?thesis
  proof (cases "KeyString a \<in> set (accountKeys tx)")
    case False
    with spec have "?tcs = []" by simp
    with False show ?thesis
      by (simp add: parseTransaction_swap [OF assms(1)] parseSwap_cases [OF assms(2)])
  next
    case True
    with spec have tcs: "?tcs = filter (\<lambda>c. change c \<noteq> 0) (map ?g ?ms)" by simp
    have inv: "isAddressInvolved (accountKeys tx) a" using True by (rule involved_string_key)
    have fneg: "find (\<lambda>c. change c < 0) ?tcs
                = map_option ?g (find (\<lambda>m. balanceDelta md a m < 0) ?ms)"
      unfolding tcs find_filter find_map
      by (rule arg_cong [where f = "map_option ?g"], rule arg_cong2 [where f = find]) auto
    have fpos: "find (\<lambda>c. 0 < change c) ?tcs
                = map_option ?g (find (\<lambda>m. 0 < balanceDelta md a m) ?ms)"
      unfolding tcs find_filter find_map
      by (rule arg_cong [where f = "map_option ?g"], rule arg_cong2 [where f = find]) auto
    show ?thesis
    proof (cases "find (\<lambda>m. balanceDelta md a m < 0) ?ms")
      case None
      with fneg neg_iff True inv assms(2) show ?thesis
        by (simp add: parseTransaction_swap [OF assms(1)] parseSwap_cases [OF assms(2)] Let_def)
    next
      case mi: (Some mi)
      show ?thesis
      proof (cases "find (\<lambda>m. 0 < balanceDelta md a m) ?ms")
        case None
        with mi fneg fpos pos_iff True inv assms(2) show ?thesis
          by (simp add: parseTransaction_swap [OF assms(1)] parseSwap_cases [OF assms(2)] Let_def)
      next
        case mo: (Some mo)
        from mi have dmi: "balanceDelta md a mi < 0" by (auto simp: find_Some_iff)
        from mo have dmo: "0 < balanceDelta md a mo" by (auto simp: find_Some_iff)
        from mi mo fneg fpos have
          fi: "find (\<lambda>c. change c < 0) ?tcs = Some (?g mi)" and
          fo: "find (\<lambda>c. 0 < change c) ?tcs = Some (?g mo)" by simp_all
        have "?g mi \<in> set ?tcs" "?g mo \<in> set ?tcs"
          using fi fo by (auto simp: find_Some_iff)
        moreover have "?g mi \<noteq> ?g mo" using dmi dmo by auto
        ultimately have len: "\<not> length ?tcs < 2"
          by (cases ?tcs; cases "tl ?tcs") auto
        from dmi dmo have ex: "(\<exists>m. balanceDelta md a m < 0) \<and> (\<exists>m. 0 < balanceDelta md a m)"
          by blast
        from fi fo len mi mo dmi ex True inv assms(2) show ?thesis
          by (simp add: parseTransaction_swap [OF assms(1)] parseSwap_cases [OF assms(2)] Let_def
                legOf_def emptyParsed_def)
      qed
    qed
  qed
qed

lemma threeLeg_deltas:
  "balanceDelta threeLegMeta ''W'' ''A'' = - 100"
  "balanceDelta threeLegMeta ''W'' ''B'' = - 50"
  "balanceDelta threeLegMeta ''W'' ''C'' = 10"
  "ownedMints threeLegMeta ''W'' = [''A'', ''B'', ''C'']"
  by (simp_all add: balanceDelta_def ownedTotal_def ownedEntries_def threeLegMeta_def orEmpty_def
        held_def ownedMints_def firstOccurrences_def)

text \<open>
  The theorem at the swap with legs A: -100, B: -50, C: +10: it is reported, with the
  first falling mint A as the input and the rising mint C as the output.
\<close>

theorem swap_reported_iff_both_signs_witness:
  "determineTransactionType (instructions threeLegSwap) = SWAP
   \<and> oneAccountPerMint (orEmpty (preTokenBalances threeLegMeta)) ''W''
   \<and> oneAccountPerMint (orEmpty (postTokenBalances threeLegMeta)) ''W''
   \<and> (\<exists>e. parseTransaction demoFormatters noServices threeLegSwap ''W'' = Some e
          \<and> map_option swap_leg.mint (inputToken e) = Some ''A''
          \<and> map_option swap_leg.amount (inputToken e) = Some 100
          \<and> map_option swap_leg.mint (outputToken e) = Some ''C''
          \<and> map_option swap_leg.amount (outputToken e) = Some 10
          \<and> parsed_data.type e = Some SWAP)"
proof -
  have one: "oneAccountPerMint (orEmpty (preTokenBalances threeLegMeta)) ''W''"
            "oneAccountPerMint (orEmpty (postTokenBalances threeLegMeta)) ''W''"
    by (simp_all add: oneAccountPerMint_def threeLegMeta_def orEmpty_def held_def)
  have small: "\<forall>b \<in> set (orEmpty (preTokenBalances threeLegMeta))
                      \<union> set (orEmpty (postTokenBalances threeLegMeta)).
                 owner b = ''W'' \<longrightarrow> token_balance.amount b < 2 ^ 53"
    by (simp add: threeLegMeta_def orEmpty_def held_def)
  have key: "KeyString ''W'' \<in> set (accountKeys threeLegSwap)"
    by (simp add: threeLegSwap_def)
  note main = swap_reported_iff_both_signs [OF threeLeg_parts(2) threeLeg_parts(1) one small,
               of demoFormatters noServices]
  have "balanceDelta threeLegMeta ''W'' ''A'' < 0" "0 < balanceDelta threeLegMeta ''W'' ''C''"
    by (simp_all add: threeLeg_deltas)
  then have "\<exists>m. balanceDelta threeLegMeta ''W'' m < 0" "\<exists>m. 0 < balanceDelta threeLegMeta ''W'' m"
    by blast+
  with main key obtain e where e: "parseTransaction demoFormatters noServices threeLegSwap ''W'' = Some e"
    by auto
  with main obtain mi mo where
    l: "find (\<lambda>m. balanceDelta threeLegMeta ''W'' m < 0) (ownedMints threeLegMeta ''W'') = Some mi"
       "find (\<lambda>m. 0 < balanceDelta threeLegMeta ''W'' m) (ownedMints threeLegMeta ''W'') = Some mo"
       "map_option swap_leg.mint (inputToken e) = Some mi"
       "map_option swap_leg.amount (inputToken e) = Some (- balanceDelta threeLegMeta ''W'' mi)"
       "map_option swap_leg.mint (outputToken e) = Some mo"
       "map_option swap_leg.amount (outputToken e) = Some (balanceDelta threeLegMeta ''W'' mo)"
       "parsed_data.type e = Some SWAP"
    by blast
  have "mi = ''A''" using l(1) by (simp add: threeLeg_deltas)
  moreover have "mo = ''C''" using l(2) by (simp add: threeLeg_deltas)
  ultimately show ?thesis using l e one threeLeg_parts(2) by (simp add: threeLeg_deltas)
qed

text \<open>
  C3 as the claim words it fails: with two negative legs and one positive leg the
  classifier still reports a swap, taking the first negative leg as the input.
\<close>

theorem swap_reported_with_two_negative_legs:
  "determineTransactionType (instructions threeLegSwap) = SWAP
   \<and> map change (tokenChangesOf threeLegSwap threeLegMeta ''W'') = [- 100, - 50, 10]
   \<and> balanceDelta threeLegMeta ''W'' ''A'' = - 100
   \<and> balanceDelta threeLegMeta ''W'' ''B'' = - 50
   \<and> balanceDelta threeLegMeta ''W'' ''C'' = 10
   \<and> parseTransaction demoFormatters noServices threeLegSwap ''W'' \<noteq> None
   \<and> map_option (\<lambda>e. map_option swap_leg.mint (inputToken e))
        (parseTransaction demoFormatters noServices threeLegSwap ''W'') = Some (Some ''A'')"
  by (simp add: parseTransaction_swap [OF threeLeg_parts(2)] threeLeg_parts
        parseSwap_cases [OF threeLeg_parts(1)] threeLeg_changes threeLeg_deltas legOf_def
        emptyParsed_def)

text \<open>
  C7 as the claim words it fails: the same swap classified while no price is known and
  while the price is 2 gives two different events.
\<close>

theorem classify_depends_on_prices:
  "parseTransaction demoFormatters noServices twoLegSwap ''W''
     \<noteq> parseTransaction demoFormatters pricedServices twoLegSwap ''W''"
proof
  have usd: "map_option (\<lambda>e. map_option usdValue (inputToken e))
               (parseTransaction demoFormatters s twoLegSwap ''W'')
             = Some (Some (calculateUSDValue s 100 ''A''))" for s
    by (simp add: parseTransaction_swap [OF twoLeg_parts(2)] twoLeg_parts
          parseSwap_cases [OF twoLeg_parts(1)] twoLeg_changes legOf_def emptyParsed_def)
  assume "parseTransaction demoFormatters noServices twoLegSwap ''W''
            = parseTransaction demoFormatters pricedServices twoLegSwap ''W''"
  then have "calculateUSDValue noServices 100 ''A'' = calculateUSDValue pricedServices 100 ''A''"
    using usd [of noServices] usd [of pricedServices] by simp
  then show False
    by (simp add: calculateUSDValue_def noServices_def pricedServices_def)
qed

text \<open>The events of that swap under the two price answers agree on the chain facts.\<close>

theorem classify_chain_facts_deterministic_witness:
  "map_option chainFacts (parseTransaction demoFormatters noServices twoLegSwap ''W'')
     = map_option chainFacts (parseTransaction demoFormatters pricedServices twoLegSwap ''W'')
   \<and> parseTransaction demoFormatters noServices twoLegSwap ''W'' \<noteq> None"
  using classify_chain_facts_deterministic [of demoFormatters noServices twoLegSwap "''W''" pricedServices]
  by (simp add: parseTransaction_swap [OF twoLeg_parts(2)] twoLeg_parts
        parseSwap_cases [OF twoLeg_parts(1)] twoLeg_changes)

section \<open>Transfers\<close>

lemma wallet_keys_differ: "payerKey \<noteq> walletKey"
  by (simp add: payerKey_def walletKey_def)

lemma system_is_transfer: "determineTransactionType [\<lparr>programId = SYSTEM_PROGRAM\<rparr>] = TRANSFER"
  by (simp add: program_ids)

lemma objectKey_native:
  "calculateSOLChange [KeyObject payerKey, KeyObject walletKey] [9, 2] [5, 6] walletKey = 0"
  by (simp add: calculateSOLChange_def)

lemma stringKey_native:
  "calculateSOLChange [KeyString payerKey, KeyString walletKey] [9, 2] [5, 6] walletKey = 4"
  using wallet_keys_differ
  by (simp add: calculateSOLChange_def lamportsAt_def toNumber_safe numSub_safe)

lemma no_token_changes: "extractTokenChanges [] [] accounts a = []"
  by (simp add: extractTokenChanges_def ownedBalanceMap_def newSet_def split: option.splits)

text \<open>
  C5.  The account keys of a fetched transaction may be key objects; \<open>isAddressInvolved\<close>
  compares their string form, but \<open>calculateSOLChange\<close> and \<open>extractTokenChanges\<close> look
  the address up with \<open>===\<close>, which no key object satisfies.  So for a System transfer
  that raises the wallet's lamports from 2 to 6, with the keys as objects, the wallet is
  involved, the type is TRANSFER, and the classifier returns null: no event reports the
  native delta.  With the keys as strings the event reports \<open>+\<close> and the magnitude 4,
  and its \<open>type\<close>, set to Received by \<open>parseTransferTransaction\<close>, leaves
  \<open>parseTransaction\<close> overwritten with TRANSFER.
\<close>

theorem object_key_transfer_not_reported:
  "isAddressInvolved (accountKeys objectKeyTransfer) walletKey
   \<and> determineTransactionType (instructions objectKeyTransfer) = TRANSFER
   \<and> map keyToString (accountKeys objectKeyTransfer) = [payerKey, walletKey]
   \<and> map_option preBalances (meta objectKeyTransfer) = Some [9, 2]
   \<and> map_option postBalances (meta objectKeyTransfer) = Some [5, 6]
   \<and> parseTransaction fmt svc objectKeyTransfer walletKey = None
   \<and> map_option parsed_data.platform (parseTransaction fmt svc stringKeyTransfer walletKey)
       = Some ''Solana Transfer''
   \<and> map_option transfer (parseTransaction fmt svc stringKeyTransfer walletKey)
       = Some (Some (''+'' @ toFixed6 fmt (4 / 10 ^ 9)))
   \<and> map_option parsed_data.type (parseTransferTransaction fmt svc stringKeyTransfer walletKey)
       = Some (Some ''Received'')
   \<and> map_option parsed_data.type (parseTransaction fmt svc stringKeyTransfer walletKey)
       = Some (Some TRANSFER)"
proof -
  have inv: "isAddressInvolved (accountKeys objectKeyTransfer) walletKey"
            "isAddressInvolved (accountKeys stringKeyTransfer) walletKey"
    by (simp_all add: objectKeyTransfer_def stringKeyTransfer_def isAddressInvolved_def)
  have ty: "determineTransactionType (instructions objectKeyTransfer) = TRANSFER"
           "determineTransactionType (instructions stringKeyTransfer) = TRANSFER"
    by (simp_all add: objectKeyTransfer_def stringKeyTransfer_def program_ids)
  have parts: "meta objectKeyTransfer = Some receivedMeta"
    "meta stringKeyTransfer = Some receivedMeta"
    "accountKeys objectKeyTransfer = [KeyObject payerKey, KeyObject walletKey]"
    "accountKeys stringKeyTransfer = [KeyString payerKey, KeyString walletKey]"
    "preBalances receivedMeta = [9, 2]" "postBalances receivedMeta = [5, 6]"
    "preTokenBalances receivedMeta = None" "postTokenBalances receivedMeta = None"
    by (simp_all add: objectKeyTransfer_def stringKeyTransfer_def receivedMeta_def)
  have obj: "parseTransferTransaction fmt svc objectKeyTransfer walletKey = None"
    by (simp add: parseTransferTransaction_def parts objectKey_native orEmpty_def
          no_token_changes)
  have str: "parseTransferTransaction fmt svc stringKeyTransfer walletKey =
               Some (emptyParsed
                    \<lparr>parsed_data.platform := ''Solana Transfer'',
                     transfer := Some (''+'' @ toFixed6 fmt (4 / 10 ^ 9)),
                     val := usdText fmt (calculateUSDValue svc 4 SOL_MINT),
                     parsed_data.type := Some ''Received''\<rparr>)"
    by (simp add: parseTransferTransaction_def parts stringKey_native signPrefix_def
          direction_def formatTokenAmount_def)
  have "parseTransaction fmt svc objectKeyTransfer walletKey = None"
    and "map_option parsed_data.platform (parseTransaction fmt svc stringKeyTransfer walletKey)
           = Some ''Solana Transfer''"
    and "map_option transfer (parseTransaction fmt svc stringKeyTransfer walletKey)
           = Some (Some (''+'' @ toFixed6 fmt (4 / 10 ^ 9)))"
    and "map_option parsed_data.type (parseTransaction fmt svc stringKeyTransfer walletKey)
           = Some (Some TRANSFER)"
    using inv ty obj str parts(1,2)
    by (auto simp: parseTransaction_def Let_def SWAP_def TRANSFER_def emptyParsed_def
          split: option.splits)
  moreover have "map keyToString (accountKeys objectKeyTransfer) = [payerKey, walletKey]"
    "map_option preBalances (meta objectKeyTransfer) = Some [9, 2]"
    "map_option postBalances (meta objectKeyTransfer) = Some [5, 6]"
    by (simp_all add: parts)
  ultimately show ?thesis using inv(1) ty(1) str by simp
qed

section \<open>The monitor's handlers\<close>

lemma polledAddresses_append [simp]:
  "polledAddresses (xs @ ys) = polledAddresses xs @ polledAddresses ys"
  by (induction xs rule: polledAddresses.induct) auto

lemma fetchedSignatures_append [simp]:
  "fetchedSignatures (xs @ ys) = fetchedSignatures xs @ fetchedSignatures ys"
  by (induction xs rule: fetchedSignatures.induct) auto

lemma classifiedSignatures_append [simp]:
  "classifiedSignatures (xs @ ys) = classifiedSignatures xs @ classifiedSignatures ys"
  by (induction xs rule: classifiedSignatures.induct) auto

lemma processTransaction_effects:
  "effects (processTransaction ev sg a st) = effects st @ processEffects ev sg a"
  by (simp add: processTransaction_def processEffects_def addEffect_def Let_def
        split: sum.splits option.splits)

lemma processEffects_polled [simp]: "polledAddresses (processEffects ev sg a) = []"
  by (simp add: processEffects_def split: sum.splits option.splits)

lemma processEffects_fetched [simp]: "fetchedSignatures (processEffects ev sg a) = [sg]"
  by (simp add: processEffects_def split: sum.splits option.splits)

lemma emittedSignatures_append [simp]:
  "emittedSignatures (xs @ ys) = emittedSignatures xs @ emittedSignatures ys"
  by (induction xs rule: emittedSignatures.induct) auto

lemma processEffects_classified:
  "classifiedSignatures (processEffects ev sg a) = (if fetchable ev sg then [sg] else [])"
  by (simp add: processEffects_def fetchable_def getTransaction_def split: sum.splits option.splits)

lemma processEffects_emitted:
  "emittedSignatures (processEffects ev sg a) = (if eventful ev a sg then [sg] else [])"
  by (simp add: processEffects_def eventful_def getTransaction_def split: sum.splits option.splits)

lemma eventful_fetchable: "eventful ev a sg \<Longrightarrow> fetchable ev sg"
  by (simp add: eventful_def fetchable_def split: sum.splits option.splits)

lemma processTransaction_fields [simp]:
  "monitoredAddresses (processTransaction ev sg a st) = monitoredAddresses st"
  "wsOpen (processTransaction ev sg a st) = wsOpen st"
  "storedAddresses (processTransaction ev sg a st) = storedAddresses st"
  by (simp_all add: processTransaction_def addEffect_def Let_def split: sum.splits option.splits)

lemma isTransactionProcessed_iff:
  "isTransactionProcessed st s = (s \<in> processed_tx.signature ` set (processedTransactions st))"
  by (auto simp: isTransactionProcessed_def list_ex_iff)

lemma replaceFirst_image:
  "f ` set (replaceFirst P y xs) \<subseteq> insert (f y) (f ` set xs)"
  by (induction xs) auto

lemma addProcessedTransaction_signatures:
  "processed_tx.signature ` set (addProcessedTransaction e txs)
     \<subseteq> insert (processed_tx.signature e) (processed_tx.signature ` set txs)"
proof -
  let ?same = "\<lambda>t. processed_tx.signature t = processed_tx.signature e"
  let ?upd = "if list_ex ?same txs then replaceFirst ?same e txs else txs @ [e]"
  have u: "processed_tx.signature ` set ?upd
             \<subseteq> insert (processed_tx.signature e) (processed_tx.signature ` set txs)"
    using replaceFirst_image [of processed_tx.signature ?same e txs] by auto
  have "set (addProcessedTransaction e txs) \<subseteq> set ?upd"
    by (auto simp: addProcessedTransaction_def Let_def dest: in_set_dropD)
  with u show ?thesis by blast
qed

lemma addProcessedTransaction_member:
  "t \<in> set (addProcessedTransaction e txs) \<Longrightarrow>
     processed_tx.signature t = processed_tx.signature e
     \<or> processed_tx.signature t \<in> processed_tx.signature ` set txs"
  using addProcessedTransaction_signatures [of e txs] by auto

lemma processTransaction_other:
  assumes "isTransactionProcessed (processTransaction ev sg a st) s" and "sg \<noteq> s"
  shows "isTransactionProcessed st s"
  using assms
  by (auto simp: isTransactionProcessed_iff processTransaction_def addEffect_def Let_def
        split: sum.splits option.splits dest!: addProcessedTransaction_member)

lemma processTransaction_null:
  assumes "\<not> eventful ev a sg"
  shows "processedTransactions (processTransaction ev sg a st) = processedTransactions st"
  using assms
  by (auto simp: processTransaction_def eventful_def getTransaction_def addEffect_def Let_def
        split: sum.splits option.splits)

lemma pollStep_fields [simp]:
  "monitoredAddresses (pollStep ev a st i) = monitoredAddresses st"
  "wsOpen (pollStep ev a st i) = wsOpen st"
  "storedAddresses (pollStep ev a st i) = storedAddresses st"
  by (simp_all add: pollStep_def)

lemma pollLoop_fields [simp]:
  "monitoredAddresses (foldl (pollStep ev a) st infos) = monitoredAddresses st"
  "wsOpen (foldl (pollStep ev a) st infos) = wsOpen st"
  "storedAddresses (foldl (pollStep ev a) st infos) = storedAddresses st"
  by (induction infos arbitrary: st) simp_all

lemma pollRecentTransactions_fields [simp]:
  "monitoredAddresses (pollRecentTransactions ev a st) = monitoredAddresses st"
  "wsOpen (pollRecentTransactions ev a st) = wsOpen st"
  "storedAddresses (pollRecentTransactions ev a st) = storedAddresses st"
  by (simp_all add: pollRecentTransactions_def addEffect_def Let_def split: sum.splits)

lemma addProcessedTransaction_fresh:
  assumes "\<not> list_ex (\<lambda>t. processed_tx.signature t = processed_tx.signature e) txs"
      and "length txs < 1000"
  shows "addProcessedTransaction e txs = txs @ [e]"
  using assms by (simp add: addProcessedTransaction_def Let_def)

lemma processTransaction_ledger:
  assumes "\<not> isTransactionProcessed st sg" and "length (processedTransactions st) < 1000"
  shows "processedTransactions (processTransaction ev sg a st) = processedTransactions st
         \<or> (\<exists>e. processed_tx.signature e = sg
                \<and> processedTransactions (processTransaction ev sg a st)
                    = processedTransactions st @ [e])"
  using assms
  by (auto simp: processTransaction_def addEffect_def Let_def isTransactionProcessed_def
        addProcessedTransaction_fresh split: sum.splits option.splits)

lemma processTransaction_keeps:
  assumes "\<not> isTransactionProcessed st sg" and "length (processedTransactions st) < 1000"
      and "s \<noteq> sg"
  shows "isTransactionProcessed (processTransaction ev sg a st) s = isTransactionProcessed st s"
  using processTransaction_ledger [OF assms(1,2), of ev a] assms(3)
  by (auto simp: isTransactionProcessed_def)

lemma processTransaction_length:
  assumes "\<not> isTransactionProcessed st sg" and "length (processedTransactions st) < 1000"
  shows "length (processedTransactions (processTransaction ev sg a st))
           \<le> Suc (length (processedTransactions st))"
  using processTransaction_ledger [OF assms, of ev a] by auto

text \<open>The loop of a poll: what it adds to the effects.\<close>

lemma pollLoop_effects:
  "\<exists>new. effects (foldl (pollStep ev a) st infos) = effects st @ new
         \<and> polledAddresses new = []
         \<and> subseq (fetchedSignatures new) (map sig_info.signature infos)
         \<and> classifiedSignatures new = filter (fetchable ev) (fetchedSignatures new)
         \<and> emittedSignatures new = filter (eventful ev a) (classifiedSignatures new)
         \<and> (\<forall>s \<in> set (map sig_info.signature infos).
               \<not> isTransactionProcessed st s \<longrightarrow> s \<in> set (fetchedSignatures new))"
proof (induction infos arbitrary: st)
  case Nil
  show ?case by simp
next
  case (Cons i rest)
  let ?sg = "sig_info.signature i"
  show ?case
  proof (cases "isTransactionProcessed st ?sg")
    case True
    then have st: "pollStep ev a st i = st" by (simp add: pollStep_def)
    from Cons.IH [of st] obtain new where
      n: "effects (foldl (pollStep ev a) st rest) = effects st @ new"
         "polledAddresses new = []"
         "subseq (fetchedSignatures new) (map sig_info.signature rest)"
         "classifiedSignatures new = filter (fetchable ev) (fetchedSignatures new)"
         "emittedSignatures new = filter (eventful ev a) (classifiedSignatures new)"
         "\<forall>s \<in> set (map sig_info.signature rest).
               \<not> isTransactionProcessed st s \<longrightarrow> s \<in> set (fetchedSignatures new)"
      by blast
    have "\<forall>s \<in> set (map sig_info.signature (i # rest)).
               \<not> isTransactionProcessed st s \<longrightarrow> s \<in> set (fetchedSignatures new)"
      using n(6) True by auto
    with n(1-5) st show ?thesis
      by (intro exI [of _ new]) (simp add: list_emb_Cons)
  next
    case False
    let ?st' = "processTransaction ev ?sg a st"
    let ?pe = "processEffects ev ?sg a"
    from False have st: "pollStep ev a st i = ?st'" by (simp add: pollStep_def)
    from Cons.IH [of ?st'] obtain new where
      n: "effects (foldl (pollStep ev a) ?st' rest) = effects ?st' @ new"
         "polledAddresses new = []"
         "subseq (fetchedSignatures new) (map sig_info.signature rest)"
         "classifiedSignatures new = filter (fetchable ev) (fetchedSignatures new)"
         "emittedSignatures new = filter (eventful ev a) (classifiedSignatures new)"
         "\<forall>s \<in> set (map sig_info.signature rest).
               \<not> isTransactionProcessed ?st' s \<longrightarrow> s \<in> set (fetchedSignatures new)"
      by blast
    have cls: "classifiedSignatures (?pe @ new) = filter (fetchable ev) (fetchedSignatures (?pe @ new))"
      using n(4) by (simp add: processEffects_classified)
    have emt: "emittedSignatures (?pe @ new) = filter (eventful ev a) (classifiedSignatures (?pe @ new))"
      using n(5) eventful_fetchable [of ev a ?sg]
      by (auto simp: processEffects_classified processEffects_emitted)
    have mem: "\<forall>s \<in> set (map sig_info.signature (i # rest)).
               \<not> isTransactionProcessed st s \<longrightarrow> s \<in> set (fetchedSignatures (?pe @ new))"
    proof (intro ballI impI)
      fix s
      assume s: "s \<in> set (map sig_info.signature (i # rest))" "\<not> isTransactionProcessed st s"
      show "s \<in> set (fetchedSignatures (?pe @ new))"
      proof (cases "s = ?sg")
        case True
        then show ?thesis by simp
      next
        case False
        with s(2) have "\<not> isTransactionProcessed ?st' s"
          using processTransaction_other [of ev ?sg a st s] by auto
        moreover from s(1) False have "s \<in> set (map sig_info.signature rest)" by auto
        ultimately show ?thesis using n(6) by auto
      qed
    qed
    have sub: "subseq (fetchedSignatures (?pe @ new)) (map sig_info.signature (i # rest))"
      using n(3) by simp
    have "effects (foldl (pollStep ev a) st (i # rest)) = effects st @ ?pe @ new"
      using n(1) st by (simp add: processTransaction_effects)
    moreover have "polledAddresses (?pe @ new) = []" using n(2) by simp
    ultimately show ?thesis using sub cls emt mem by blast
  qed
qed

text \<open>
  While the ledger has room for every signature of the list, so that nothing is evicted,
  and the list has no signature twice, the loop fetches exactly the signatures that were
  not in the ledger when it began.
\<close>

lemma pollLoop_exact:
  assumes "distinct (map sig_info.signature infos)"
      and "length (processedTransactions st) + length infos \<le> 1000"
  shows "fetchedSignatures (effects (foldl (pollStep ev a) st infos))
           = fetchedSignatures (effects st)
             @ filter (\<lambda>s. \<not> isTransactionProcessed st s) (map sig_info.signature infos)"
  using assms
proof (induction infos arbitrary: st)
  case Nil
  show ?case by simp
next
  case (Cons i rest)
  let ?sg = "sig_info.signature i"
  from Cons.prems have d: "distinct (map sig_info.signature rest)"
    and fresh: "?sg \<notin> set (map sig_info.signature rest)" by auto
  show ?case
  proof (cases "isTransactionProcessed st ?sg")
    case True
    then have st: "pollStep ev a st i = st" by (simp add: pollStep_def)
    from Cons.prems have "length (processedTransactions st) + length rest \<le> 1000" by simp
    from Cons.IH [OF d this] True st show ?thesis by simp
  next
    case False
    let ?st' = "processTransaction ev ?sg a st"
    from False have st: "pollStep ev a st i = ?st'" by (simp add: pollStep_def)
    from Cons.prems have room: "length (processedTransactions st) < 1000" by simp
    have "length (processedTransactions ?st') + length rest \<le> 1000"
      using processTransaction_length [OF False room, of ev a] Cons.prems(2) by simp
    from Cons.IH [OF d this]
    have "fetchedSignatures (effects (foldl (pollStep ev a) ?st' rest))
            = fetchedSignatures (effects ?st')
              @ filter (\<lambda>s. \<not> isTransactionProcessed ?st' s) (map sig_info.signature rest)" .
    moreover have "filter (\<lambda>s. \<not> isTransactionProcessed ?st' s) (map sig_info.signature rest)
                     = filter (\<lambda>s. \<not> isTransactionProcessed st s) (map sig_info.signature rest)"
    proof (rule filter_cong [OF refl])
      fix s
      assume "s \<in> set (map sig_info.signature rest)"
      with fresh have "s \<noteq> ?sg" by blast
      from processTransaction_keeps [OF False room this, of ev a]
      show "(\<not> isTransactionProcessed ?st' s) = (\<not> isTransactionProcessed st s)" by simp
    qed
    ultimately show ?thesis
      using False st by (simp add: processTransaction_effects)
  qed
qed

lemma isTransactionProcessed_addEffect [simp]:
  "isTransactionProcessed (addEffect x st) s = isTransactionProcessed st s"
  by (simp add: isTransactionProcessed_def addEffect_def)

lemma pollRecentTransactions_effects:
  assumes "validPublicKey ev a" and "signaturesOf (node ev) a = Inr infos"
      and "sigs = map sig_info.signature (take 10 infos)"
  shows "\<exists>new. effects (pollRecentTransactions ev a st) = effects st @ RpcGetSignatures a 10 # new
         \<and> polledAddresses new = []
         \<and> subseq (fetchedSignatures new) sigs
         \<and> (\<forall>s \<in> set sigs. \<not> isTransactionProcessed st s \<longrightarrow> s \<in> set (fetchedSignatures new))
         \<and> classifiedSignatures new = filter (fetchable ev) (fetchedSignatures new)
         \<and> emittedSignatures new = filter (eventful ev a) (classifiedSignatures new)
         \<and> (distinct sigs \<and> length (processedTransactions st) + length sigs \<le> 1000 \<longrightarrow>
               fetchedSignatures new = filter (\<lambda>s. \<not> isTransactionProcessed st s) sigs)"
proof -
  let ?st1 = "addEffect (RpcGetSignatures a 10) st"
  have p: "pollRecentTransactions ev a st = foldl (pollStep ev a) ?st1 (take 10 infos)"
    using assms by (simp add: pollRecentTransactions_def getSignaturesForAddress_def Let_def)
  from pollLoop_effects [of ev a ?st1 "take 10 infos"] obtain new where
    n: "effects (foldl (pollStep ev a) ?st1 (take 10 infos)) = effects ?st1 @ new"
       "polledAddresses new = []"
       "subseq (fetchedSignatures new) sigs"
       "classifiedSignatures new = filter (fetchable ev) (fetchedSignatures new)"
       "emittedSignatures new = filter (eventful ev a) (classifiedSignatures new)"
       "\<forall>s \<in> set sigs. \<not> isTransactionProcessed st s \<longrightarrow> s \<in> set (fetchedSignatures new)"
    unfolding assms(3) by auto
  have eff: "effects (pollRecentTransactions ev a st) = effects st @ RpcGetSignatures a 10 # new"
    using n(1) by (simp add: p addEffect_def)
  have exact: "fetchedSignatures new = filter (\<lambda>s. \<not> isTransactionProcessed st s) sigs"
    if "distinct sigs" and "length (processedTransactions st) + length sigs \<le> 1000"
  proof -
    have "length (processedTransactions ?st1) + length (take 10 infos) \<le> 1000"
      using that(2) by (simp add: assms(3) addEffect_def)
    from pollLoop_exact [OF _ this, of ev a] that(1)
    have "fetchedSignatures (effects ?st1 @ new)
            = fetchedSignatures (effects ?st1)
              @ filter (\<lambda>s. \<not> isTransactionProcessed st s) sigs"
      by (simp add: assms(3) n(1))
    then show ?thesis by simp
  qed
  from eff n(2-6) exact show ?thesis by blast
qed

section \<open>Polling\<close>

text \<open>
  C2, as the code has it.  A poll of an address requests its 10 most recent signatures
  and walks them in the order the node returned them, newest first.  The signatures it
  fetches form a subsequence of that list in that order and contain every signature of
  the list that was not in the ledger when the poll began; the classifier is called, in
  the order of the fetches, for exactly the fetched signatures whose transaction the node
  returns, and an event is emitted, in the same order, for exactly those the classifier
  maps to an event.  When the list has no signature twice and the ledger has room for all
  of them below its cap of 1000, the fetched signatures are exactly the signatures of the
  list that the ledger did not hold, so every signature the ledger holds is skipped.
\<close>

theorem poll_processes_in_returned_order:
  assumes "validPublicKey ev a" and "signaturesOf (node ev) a = Inr infos"
      and "sigs = map sig_info.signature (take 10 infos)"
  shows "\<exists>new. effects (pollRecentTransactions ev a st) = effects st @ RpcGetSignatures a 10 # new
         \<and> subseq (fetchedSignatures new) sigs
         \<and> (\<forall>s \<in> set sigs. \<not> isTransactionProcessed st s \<longrightarrow> s \<in> set (fetchedSignatures new))
         \<and> classifiedSignatures new = filter (fetchable ev) (fetchedSignatures new)
         \<and> emittedSignatures new = filter (eventful ev a) (classifiedSignatures new)
         \<and> (distinct sigs \<and> length (processedTransactions st) + length sigs \<le> 1000 \<longrightarrow>
               fetchedSignatures new = filter (\<lambda>s. \<not> isTransactionProcessed st s) sigs)"
  using pollRecentTransactions_effects [OF assms, of st] by blast

lemma processTransaction_emits:
  assumes "getTransaction (node ev) sg = Inr (Some tx)"
      and "parseTransaction (formats ev) (collab ev) tx a = Some pd"
  shows "processTransaction ev sg a st =
           st\<lparr>effects := effects st @ [RpcGetTransaction sg, ClassifierCall sg a, Emitted sg a pd],
              processedTransactions :=
                addProcessedTransaction
                  \<lparr>processed_tx.signature = sg, processed_tx.type = parsed_data.type pd,
                   processed_tx.address = a, processed_tx.platform = parsed_data.platform pd\<rparr>
                  (processedTransactions st)\<rparr>"
  using assms by (simp add: processTransaction_def addEffect_def Let_def)

lemma wallet_value:
  "base58Value walletKey
     = Some 57238836374313022901541280809307744384675513509713574911423640879777966655218"
  by (simp add: base58Value_def walletKey_def base58Alphabet_def)

lemma payer_value:
  "base58Value payerKey
     = Some 29555267933980536489500274975650497092513243748647118716558015509797207118600"
  by (simp add: base58Value_def payerKey_def base58Alphabet_def)

lemma wallet_valid: "demoValid walletKey"
  by (simp add: demoValid_def decodedLength_def wallet_value) (simp add: walletKey_def byteLength.simps)

lemma payer_valid: "demoValid payerKey"
  by (simp add: demoValid_def decodedLength_def payer_value) (simp add: payerKey_def byteLength.simps)

lemma system_valid: "demoValid SYSTEM_PROGRAM"
  by (simp add: demoValid_def decodedLength_def base58Value_def SYSTEM_PROGRAM_def
        base58Alphabet_def byteLength.simps)

lemma wallet_classified:
  "parseTransaction demoFormatters noServices (walletMemo s) walletKey = Some (walletEvent s)"
  by (simp add: parseTransaction_def walletMemo_def isAddressInvolved_def
        parseUnknownTransaction_def unknownPlatform_def walletEvent_def emptyParsed_def
        UNKNOWN_def SWAP_def TRANSFER_def DEFI_def)

lemma liveEnv_parts:
  "validPublicKey liveEnv walletKey"
  "validPublicKey liveEnv SYSTEM_PROGRAM"
  "signaturesOf (node liveEnv) a = Inr newestFirst"
  "transactionOf (node liveEnv) s = Inr (Some (walletMemo s))"
  "formats liveEnv = demoFormatters"
  "collab liveEnv = noServices"
  by (simp_all add: liveEnv_def wallet_valid system_valid)

lemma live_outcomes: "fetchable liveEnv s" "eventful liveEnv walletKey s"
  by (simp_all add: fetchable_def eventful_def liveEnv_parts wallet_classified)

lemma newestFirst_signatures:
  "map sig_info.signature (take 10 newestFirst) = [''T3'', ''T2'', ''T1'']"
  "map sig_info.blockTime newestFirst = [Some 3, Some 2, Some 1]"
  by (simp_all add: newestFirst_def)

text \<open>
  The theorem at a poll of the wallet that finds \<open>T3\<close>, \<open>T2\<close>, \<open>T1\<close> while the ledger
  holds \<open>T2\<close>: \<open>T3\<close> and then \<open>T1\<close> are fetched, classified and emitted, \<open>T2\<close> is skipped.
\<close>

theorem poll_processes_in_returned_order_witness:
  "validPublicKey liveEnv walletKey
   \<and> signaturesOf (node liveEnv) walletKey = Inr newestFirst
   \<and> isTransactionProcessed walletSeenT2 ''T2''
   \<and> fetchedSignatures (effects (pollRecentTransactions liveEnv walletKey walletSeenT2))
       = [''T3'', ''T1'']
   \<and> classifiedSignatures (effects (pollRecentTransactions liveEnv walletKey walletSeenT2))
       = [''T3'', ''T1'']
   \<and> emittedSignatures (effects (pollRecentTransactions liveEnv walletKey walletSeenT2))
       = [''T3'', ''T1'']"
proof -
  have st: "effects walletSeenT2 = []" "length (processedTransactions walletSeenT2) = 1"
    "isTransactionProcessed walletSeenT2 s = (s = ''T2'')" for s
    by (auto simp: walletSeenT2_def walletMonitor_def isTransactionProcessed_def)
  from poll_processes_in_returned_order
         [OF liveEnv_parts(1) liveEnv_parts(3) newestFirst_signatures(1) [symmetric], of walletSeenT2]
  obtain new where
    n: "effects (pollRecentTransactions liveEnv walletKey walletSeenT2)
          = effects walletSeenT2 @ RpcGetSignatures walletKey 10 # new"
       "classifiedSignatures new = filter (fetchable liveEnv) (fetchedSignatures new)"
       "emittedSignatures new = filter (eventful liveEnv walletKey) (classifiedSignatures new)"
       "distinct [''T3'', ''T2'', ''T1'']
          \<and> length (processedTransactions walletSeenT2) + length [''T3'', ''T2'', ''T1''] \<le> 1000 \<longrightarrow>
        fetchedSignatures new
          = filter (\<lambda>s. \<not> isTransactionProcessed walletSeenT2 s) [''T3'', ''T2'', ''T1'']"
    by blast
  from n(4) have f: "fetchedSignatures new = [''T3'', ''T1'']" by (simp add: st)
  with n(2) have c: "classifiedSignatures new = [''T3'', ''T1'']" by (simp add: live_outcomes)
  with n(3) have e: "emittedSignatures new = [''T3'', ''T1'']" by (simp add: live_outcomes)
  from f c e n(1) show ?thesis by (simp add: st liveEnv_parts)
qed

lemma live_process:
  "processTransaction liveEnv s walletKey st =
     st\<lparr>effects := effects st @ [RpcGetTransaction s, ClassifierCall s walletKey,
                                  Emitted s walletKey (walletEvent s)],
        processedTransactions :=
          addProcessedTransaction
            \<lparr>processed_tx.signature = s, processed_tx.type = Some UNKNOWN,
             processed_tx.address = walletKey, processed_tx.platform = ''Unknown''\<rparr>
            (processedTransactions st)\<rparr>"
  using processTransaction_emits [of liveEnv s "walletMemo s" walletKey "walletEvent s" st]
  by (simp add: liveEnv_parts getTransaction_def wallet_classified walletEvent_def emptyParsed_def)

lemma live_poll:
  "effects (pollRecentTransactions liveEnv walletKey walletMonitor)
     = [RpcGetSignatures walletKey 10,
        RpcGetTransaction ''T3'', ClassifierCall ''T3'' walletKey, Emitted ''T3'' walletKey (walletEvent ''T3''),
        RpcGetTransaction ''T2'', ClassifierCall ''T2'' walletKey, Emitted ''T2'' walletKey (walletEvent ''T2''),
        RpcGetTransaction ''T1'', ClassifierCall ''T1'' walletKey, Emitted ''T1'' walletKey (walletEvent ''T1'')]"
  by (simp add: pollRecentTransactions_def liveEnv_parts getSignaturesForAddress_def
        newestFirst_def pollStep_def live_process isTransactionProcessed_def
        addProcessedTransaction_def addEffect_def walletMonitor_def)

text \<open>
  C2 as the claim words it fails: three new signatures returned newest first, with block
  times 3, 2 and 1, are fetched, classified and emitted in that order, the newest first.
\<close>

theorem poll_classifies_newest_first:
  "validPublicKey liveEnv walletKey
   \<and> getSignaturesForAddress (node liveEnv) walletKey 10 = Inr newestFirst
   \<and> map sig_info.signature newestFirst = [''T3'', ''T2'', ''T1'']
   \<and> map sig_info.blockTime newestFirst = [Some 3, Some 2, Some 1]
   \<and> processedTransactions walletMonitor = []
   \<and> fetchedSignatures (effects (pollRecentTransactions liveEnv walletKey walletMonitor))
       = [''T3'', ''T2'', ''T1'']
   \<and> classifiedSignatures (effects (pollRecentTransactions liveEnv walletKey walletMonitor))
       = [''T3'', ''T2'', ''T1'']
   \<and> emittedSignatures (effects (pollRecentTransactions liveEnv walletKey walletMonitor))
       = [''T3'', ''T2'', ''T1'']"
  by (simp add: live_poll liveEnv_parts getSignaturesForAddress_def)
     (simp add: newestFirst_def walletMonitor_def)

section \<open>Push notifications\<close>

lemma pollRecentTransactions_polled:
  assumes "validPublicKey ev a"
  shows "polledAddresses (effects (pollRecentTransactions ev a st)) = polledAddresses (effects st) @ [a]"
proof (cases "signaturesOf (node ev) a")
  case (Inl e)
  with assms show ?thesis
    by (simp add: pollRecentTransactions_def getSignaturesForAddress_def addEffect_def Let_def)
next
  case (Inr infos)
  from pollRecentTransactions_effects [OF assms Inr refl, of st] show ?thesis by auto
qed

text \<open>
  C6.  An account notification names the subscription it reports on; the address of the
  account is not in it.  The handler takes \<open>result.value.owner\<close>, the program that owns
  the account, for the address.  A wallet is owned by the System program, so for a
  notification about the monitored wallet, whatever its subscription number, the handler
  does nothing at all: no poll of the wallet.  And when the owner happens to be monitored
  too, it is the owner that is polled, not the wallet.
\<close>

theorem account_notification_reads_owner_field:
  "walletKey \<in> set (monitoredAddresses walletMonitor)
   \<and> handleWebSocketMessage ev (AccountNotification n SYSTEM_PROGRAM) walletMonitor = walletMonitor
   \<and> polledAddresses (effects (handleWebSocketMessage ev (AccountNotification n SYSTEM_PROGRAM)
                                  walletMonitor)) = []
   \<and> polledAddresses (effects (handleWebSocketMessage liveEnv (AccountNotification n SYSTEM_PROGRAM)
                                  (walletMonitor\<lparr>monitoredAddresses := [walletKey, SYSTEM_PROGRAM]\<rparr>)))
       = [SYSTEM_PROGRAM]"
proof -
  have differ: "SYSTEM_PROGRAM \<noteq> walletKey" by (simp add: SYSTEM_PROGRAM_def walletKey_def)
  have mon: "monitoredAddresses walletMonitor = [walletKey]" "effects walletMonitor = []"
    by (simp_all add: walletMonitor_def)
  have idle: "handleWebSocketMessage ev (AccountNotification n SYSTEM_PROGRAM) walletMonitor
                = walletMonitor"
    using differ by (simp add: handleAccountNotification_def mon)
  have "polledAddresses (effects (handleWebSocketMessage liveEnv (AccountNotification n SYSTEM_PROGRAM)
                                  (walletMonitor\<lparr>monitoredAddresses := [walletKey, SYSTEM_PROGRAM]\<rparr>)))
       = [SYSTEM_PROGRAM]"
    by (simp add: handleAccountNotification_def pollRecentTransactions_polled liveEnv_parts mon)
  with idle mon show ?thesis by simp
qed

lemma memo_classified:
  "parseTransaction demoFormatters noServices (memoTx s) ''W'' = Some (memoEvent s)"
  by (simp add: parseTransaction_def memoTx_def isAddressInvolved_def parseUnknownTransaction_def
        unknownPlatform_def memoEvent_def emptyParsed_def UNKNOWN_def SWAP_def TRANSFER_def DEFI_def)

lemma demoEnv_parts:
  "getTransaction (node demoEnv) s = Inr (Some (memoTx s))"
  "formats demoEnv = demoFormatters"
  "collab demoEnv = noServices"
  by (simp_all add: demoEnv_def demoChain_def getTransaction_def)

lemma demo_process:
  "processTransaction demoEnv s ''W'' st =
     st\<lparr>effects := effects st @ [RpcGetTransaction s, ClassifierCall s ''W'', Emitted s ''W'' (memoEvent s)],
        processedTransactions :=
          addProcessedTransaction
            \<lparr>processed_tx.signature = s, processed_tx.type = Some UNKNOWN,
             processed_tx.address = ''W'', processed_tx.platform = ''Unknown''\<rparr>
            (processedTransactions st)\<rparr>"
  using processTransaction_emits [of demoEnv s "memoTx s" "''W''" "memoEvent s" st]
  by (simp add: demoEnv_parts memo_classified memoEvent_def emptyParsed_def)

text \<open>
  C1, the push path.  A logs notification is processed without asking the ledger: for a
  signature already marked processed, whose log lines name a monitored address, the
  transaction is fetched again, the classifier runs again and the event is emitted again.
  (The polling path does ask: \<open>pollStep\<close> skips a signature the ledger holds.)
\<close>

theorem logs_notification_reclassifies_processed:
  "isTransactionProcessed seenMonitor ''T1''
   \<and> effects (handleWebSocketMessage demoEnv (LogsNotification ''T1'' [''Program log: W'']) seenMonitor)
       = [RpcGetTransaction ''T1'', ClassifierCall ''T1'' ''W'', Emitted ''T1'' ''W'' (memoEvent ''T1'')]"
  by (simp add: handleLogsNotification_def demo_process isTransactionProcessed_def
        seenMonitor_def idleMonitor_def)

lemma pollStep_skips_processed:
  "isTransactionProcessed st (sig_info.signature i) \<Longrightarrow> pollStep ev a st i = st"
  by (simp add: pollStep_def)

section \<open>Adding an address\<close>

text \<open>
  C9.  When the key constructor rejects the address string, \<open>addAddress\<close> fails with the
  validation error and leaves the monitored set, the stored address list, the ledger and
  the connection as they were; it only logs the error.
\<close>

theorem addAddress_rejects_malformed:
  assumes "\<not> validPublicKey ev a"
  shows "fst (addAddress ev a lbl st) = Inl InvalidPublicKey
         \<and> monitoredAddresses (snd (addAddress ev a lbl st)) = monitoredAddresses st
         \<and> storedAddresses (snd (addAddress ev a lbl st)) = storedAddresses st
         \<and> processedTransactions (snd (addAddress ev a lbl st)) = processedTransactions st
         \<and> wsOpen (snd (addAddress ev a lbl st)) = wsOpen st
         \<and> effects (snd (addAddress ev a lbl st)) = effects st @ [LoggedError]"
  using assms by (simp add: addAddress_def addEffect_def)

text \<open>The theorem at a string with characters outside the base58 alphabet.\<close>

theorem addAddress_rejects_malformed_witness:
  "\<not> validPublicKey demoEnv ''0OIl''
   \<and> fst (addAddress demoEnv ''0OIl'' ''x'' idleMonitor) = Inl InvalidPublicKey
   \<and> monitoredAddresses (snd (addAddress demoEnv ''0OIl'' ''x'' idleMonitor)) = [''W'']
   \<and> storedAddresses (snd (addAddress demoEnv ''0OIl'' ''x'' idleMonitor))
       = [\<lparr>stored_address.address = ''W'', label = []\<rparr>]"
proof -
  have bad: "\<not> validPublicKey demoEnv ''0OIl''"
    by (simp add: demoEnv_def demoValid_def decodedLength_def base58Value_def base58Alphabet_def)
  from addAddress_rejects_malformed [OF bad, of "''x''" idleMonitor] bad show ?thesis
    by (simp add: idleMonitor_def)
qed

section \<open>Signatures the classifier maps to null\<close>

text \<open>Whether the classifier returns null does not depend on the formatters or the collaborators.\<close>

lemma parseSwap_null_independent:
  "(parseSwapTransaction fmt svc tx a = None) = (parseSwapTransaction fmt' svc' tx a = None)"
proof (cases "meta tx")
  case None
  then show ?thesis by (simp add: parseSwapTransaction_def)
next
  case (Some md)
  show ?thesis
    by (simp add: parseSwap_cases [OF Some] Let_def split: option.splits)
qed

lemma parseTransfer_null_independent:
  "(parseTransferTransaction fmt svc tx a = None) = (parseTransferTransaction fmt' svc' tx a = None)"
  by (simp add: parseTransferTransaction_def Let_def split: option.splits list.splits)

lemma parseTransaction_null_independent:
  "(parseTransaction fmt svc tx a = None) = (parseTransaction fmt' svc' tx a = None)"
proof -
  define dispatch where "dispatch = (\<lambda>f s.
      if determineTransactionType (instructions tx) = SWAP then parseSwapTransaction f s tx a
      else if determineTransactionType (instructions tx) = TRANSFER then parseTransferTransaction f s tx a
      else if determineTransactionType (instructions tx) = DEFI then parseDeFiTransaction f s tx a
      else parseUnknownTransaction f s tx a)"
  have p: "(parseTransaction f s tx a = None) =
             (meta tx = None \<or> \<not> isAddressInvolved (accountKeys tx) a \<or> dispatch f s = None)" for f s
    by (simp add: parseTransaction_def Let_def dispatch_def split: option.splits)
  have "(dispatch fmt svc = None) = (dispatch fmt' svc' = None)"
    using parseSwap_null_independent [of fmt svc tx a fmt' svc']
          parseTransfer_null_independent [of fmt svc tx a fmt' svc']
    by (simp add: dispatch_def parseDeFiTransaction_def parseUnknownTransaction_def)
  then show ?thesis by (simp add: p)
qed

lemma null_not_eventful:
  assumes "servesOnly ev sg tx" and "parseTransaction fmt svc tx a = None"
  shows "\<not> eventful ev a sg"
  using assms parseTransaction_null_independent [of "formats ev" "collab ev" tx a fmt svc]
  by (auto simp: servesOnly_def eventful_def split: sum.splits option.splits)

lemma pollLoop_null:
  assumes "\<not> eventful ev a sg" and "\<not> isTransactionProcessed st sg"
  shows "\<not> isTransactionProcessed (foldl (pollStep ev a) st infos) sg"
  using assms(2)
proof (induction infos arbitrary: st)
  case Nil
  then show ?case by simp
next
  case (Cons i rest)
  have "\<not> isTransactionProcessed (pollStep ev a st i) sg"
  proof (cases "sig_info.signature i = sg")
    case True
    with Cons.prems show ?thesis
      using processTransaction_null [OF assms(1), of st]
      by (simp add: pollStep_def isTransactionProcessed_def)
  next
    case False
    with Cons.prems show ?thesis
      using processTransaction_other [of ev "sig_info.signature i" a st sg]
      by (auto simp: pollStep_def)
  qed
  from Cons.IH [OF this] show ?case by simp
qed

lemma pollRecentTransactions_null:
  assumes "\<not> eventful ev a sg" and "\<not> isTransactionProcessed st sg"
  shows "\<not> isTransactionProcessed (pollRecentTransactions ev a st) sg"
proof -
  have "\<not> isTransactionProcessed (addEffect x st) sg" for x
    using assms(2) by simp
  from pollLoop_null [OF assms(1) this] assms(2) show ?thesis
    by (simp add: pollRecentTransactions_def Let_def split: sum.splits)
qed

lemma pollingLoop_null:
  assumes "\<forall>a \<in> set as. \<not> eventful ev a sg" and "\<not> isTransactionProcessed st sg"
  shows "\<not> isTransactionProcessed (foldl (\<lambda>s a. pollRecentTransactions ev a s) st as) sg"
  using assms
proof (induction as arbitrary: st)
  case Nil
  then show ?case by simp
next
  case (Cons a as)
  from Cons.prems have a: "\<not> eventful ev a sg" and as: "\<forall>a \<in> set as. \<not> eventful ev a sg" by auto
  from Cons.IH [OF as pollRecentTransactions_null [OF a Cons.prems(2)]]
  show ?case by simp
qed

lemma pollingLoop_monitored [simp]:
  "monitoredAddresses (foldl (\<lambda>s a. pollRecentTransactions ev a s) st as) = monitoredAddresses st"
  by (induction as arbitrary: st) simp_all

lemma step_monitored [simp]: "monitoredAddresses (step st x) = monitoredAddresses st"
proof (cases x)
  case (Pair ev e)
  show ?thesis
  proof (cases e)
    case TimerFired
    with Pair show ?thesis by (simp add: pollingTick_def)
  next
    case (Pushed msg)
    with Pair show ?thesis
      by (cases msg)
         (simp_all add: handleAccountNotification_def handleLogsNotification_def split: option.splits)
  qed
qed

lemma step_null:
  assumes "\<forall>a \<in> set (monitoredAddresses st). \<not> eventful ev a sg"
      and "\<not> isTransactionProcessed st sg"
  shows "\<not> isTransactionProcessed (step st (ev, e)) sg"
proof (cases e)
  case TimerFired
  then show ?thesis
    using pollingLoop_null [OF assms] by (simp add: pollingTick_def)
next
  case (Pushed msg)
  show ?thesis
  proof (cases msg)
    case (AccountNotification n a)
    with Pushed show ?thesis
      using pollRecentTransactions_null [of ev a sg st] assms
      by (simp add: handleAccountNotification_def)
  next
    case (LogsNotification s logs)
    show ?thesis
    proof (cases "find (\<lambda>addr. list_ex (\<lambda>log. stringIncludes log addr) logs) (monitoredAddresses st)")
      case None
      with Pushed LogsNotification assms(2) show ?thesis by (simp add: handleLogsNotification_def)
    next
      case (Some a)
      then have a: "a \<in> set (monitoredAddresses st)" by (auto simp: find_Some_iff)
      with assms(1) have quiet: "\<not> eventful ev a sg" by blast
      have "\<not> isTransactionProcessed (processTransaction ev s a st) sg"
      proof (cases "s = sg")
        case True
        with assms(2) show ?thesis
          using processTransaction_null [OF quiet, of st]
          by (simp add: isTransactionProcessed_def)
      next
        case False
        with assms(2) show ?thesis
          using processTransaction_other [of ev s a st sg] by auto
      qed
      with Pushed LogsNotification Some show ?thesis by (simp add: handleLogsNotification_def)
    qed
  next
    case OtherMessage
    with Pushed assms(2) show ?thesis by simp
  qed
qed

lemma run_monitored [simp]: "monitoredAddresses (run evs st) = monitoredAddresses st"
  unfolding run_def by (induction evs arbitrary: st) simp_all

lemma run_null:
  assumes "list_all (\<lambda>x. \<forall>a \<in> set (monitoredAddresses st). \<not> eventful (fst x) a sg) evs"
      and "\<not> isTransactionProcessed st sg"
  shows "\<not> isTransactionProcessed (run evs st) sg"
  using assms unfolding run_def
proof (induction evs arbitrary: st)
  case Nil
  then show ?case by simp
next
  case (Cons x evs)
  obtain ev e where x: "x = (ev, e)" by (cases x)
  from Cons.prems x have "\<not> isTransactionProcessed (step st x) sg"
    using step_null [of st ev sg e] by simp
  moreover from Cons.prems
  have "list_all (\<lambda>x'. \<forall>a \<in> set (monitoredAddresses (step st x)). \<not> eventful (fst x') a sg) evs"
    by simp
  ultimately show ?case using Cons.IH by simp
qed

lemma pollLoop_refetch:
  assumes "getTransaction (node ev) sg = Inr (Some tx)"
      and "parseTransaction (formats ev) (collab ev) tx a = None"
      and "sg \<in> set (map sig_info.signature infos)"
      and "\<not> isTransactionProcessed st sg"
  shows "\<exists>before after. effects (foldl (pollStep ev a) st infos)
           = effects st @ before @ [RpcGetTransaction sg, ClassifierCall sg a] @ after"
  using assms(3,4)
proof (induction infos arbitrary: st)
  case Nil
  then show ?case by simp
next
  case (Cons i rest)
  show ?case
  proof (cases "sig_info.signature i = sg")
    case True
    with Cons.prems(2) have st: "pollStep ev a st i = processTransaction ev sg a st"
      by (simp add: pollStep_def)
    have pe: "processEffects ev sg a = [RpcGetTransaction sg, ClassifierCall sg a]"
      using assms(1,2) by (simp add: processEffects_def)
    from pollLoop_effects [of ev a "processTransaction ev sg a st" rest] obtain new where
      "effects (foldl (pollStep ev a) (processTransaction ev sg a st) rest)
         = effects (processTransaction ev sg a st) @ new" by blast
    then have "effects (foldl (pollStep ev a) st (i # rest))
                 = effects st @ [] @ [RpcGetTransaction sg, ClassifierCall sg a] @ new"
      by (simp add: st processTransaction_effects pe)
    then show ?thesis by blast
  next
    case False
    let ?st' = "pollStep ev a st i"
    from False Cons.prems(1) have in_rest: "sg \<in> set (map sig_info.signature rest)" by auto
    have unproc: "\<not> isTransactionProcessed ?st' sg"
      using False Cons.prems(2) processTransaction_other [of ev "sig_info.signature i" a st sg]
      by (auto simp: pollStep_def)
    from pollLoop_effects [of ev a st "[i]"] obtain x where x: "effects ?st' = effects st @ x"
      by auto
    from Cons.IH [OF in_rest unproc] obtain before after where
      "effects (foldl (pollStep ev a) ?st' rest)
         = effects ?st' @ before @ [RpcGetTransaction sg, ClassifierCall sg a] @ after" by blast
    then have "effects (foldl (pollStep ev a) st (i # rest))
                 = effects st @ (x @ before) @ [RpcGetTransaction sg, ClassifierCall sg a] @ after"
      by (simp add: x)
    then show ?thesis by blast
  qed
qed

text \<open>
  C10, as the code has it.  The ledger is keyed by the signature alone, and a signature
  is marked when the classifier returns an event for the address it was discovered for.
  Take a signature that is not in the ledger, whose transaction (the one the node returns
  for it whenever it returns any) the classifier maps to null for every monitored
  address.  Whatever timer firings and push messages follow, the signature is never
  marked processed; and a poll of a monitored address whose 10 most recent signatures
  include it fetches the transaction again and calls the classifier on it again, still
  without marking it.
\<close>

theorem null_classified_is_reprocessed:
  assumes "list_all (\<lambda>x. servesOnly (fst x) sg tx) evs"
      and "list_all (\<lambda>a. parseTransaction fmt svc tx a = None) (monitoredAddresses st)"
      and "\<not> isTransactionProcessed st sg"
  shows "\<not> isTransactionProcessed (run evs st) sg
         \<and> (\<forall>ev a infos.
               a \<in> set (monitoredAddresses st) \<and> validPublicKey ev a
               \<and> signaturesOf (node ev) a = Inr infos
               \<and> sg \<in> set (map sig_info.signature (take 10 infos))
               \<and> transactionOf (node ev) sg = Inr (Some tx)
             \<longrightarrow> (\<exists>before after.
                    effects (pollRecentTransactions ev a (run evs st))
                      = effects (run evs st) @ before
                          @ [RpcGetTransaction sg, ClassifierCall sg a] @ after)
                 \<and> \<not> isTransactionProcessed (pollRecentTransactions ev a (run evs st)) sg)"
proof (intro conjI allI impI)
  have "list_all (\<lambda>x. \<forall>a \<in> set (monitoredAddresses st). \<not> eventful (fst x) a sg) evs"
    using assms(1,2) null_not_eventful [of _ sg tx fmt svc]
    by (auto simp: list_all_iff)
  then show unproc: "\<not> isTransactionProcessed (run evs st) sg"
    using assms(3) by (rule run_null)
  fix ev :: env and a infos
  assume h: "a \<in> set (monitoredAddresses st) \<and> validPublicKey ev a
               \<and> signaturesOf (node ev) a = Inr infos
               \<and> sg \<in> set (map sig_info.signature (take 10 infos))
               \<and> transactionOf (node ev) sg = Inr (Some tx)"
  let ?st = "run evs st"
  let ?st1 = "addEffect (RpcGetSignatures a 10) ?st"
  from h assms(2) have "parseTransaction fmt svc tx a = None" by (auto simp: list_all_iff)
  then have null: "parseTransaction (formats ev) (collab ev) tx a = None"
    using parseTransaction_null_independent [of "formats ev" "collab ev" tx a fmt svc] by simp
  from h have g: "getTransaction (node ev) sg = Inr (Some tx)" by (simp add: getTransaction_def)
  from null h have quiet: "\<not> eventful ev a sg" by (simp add: eventful_def)
  have p: "pollRecentTransactions ev a ?st = foldl (pollStep ev a) ?st1 (take 10 infos)"
    using h by (simp add: pollRecentTransactions_def getSignaturesForAddress_def Let_def)
  have u1: "\<not> isTransactionProcessed ?st1 sg"
    using unproc by simp
  from h have m: "sg \<in> set (map sig_info.signature (take 10 infos))" by simp
  from pollLoop_refetch [OF g null m u1] obtain before after where
    "effects (foldl (pollStep ev a) ?st1 (take 10 infos))
       = effects ?st1 @ before @ [RpcGetTransaction sg, ClassifierCall sg a] @ after" by blast
  then have "effects (pollRecentTransactions ev a ?st)
      = effects ?st @ (RpcGetSignatures a 10 # before) @ [RpcGetTransaction sg, ClassifierCall sg a] @ after"
    by (simp add: p addEffect_def)
  then show "\<exists>before after.
                    effects (pollRecentTransactions ev a (run evs st))
                      = effects (run evs st) @ before
                          @ [RpcGetTransaction sg, ClassifierCall sg a] @ after" by blast
  show "\<not> isTransactionProcessed (pollRecentTransactions ev a ?st) sg"
    using pollRecentTransactions_null [OF quiet unproc] .
qed

lemma quiet_parts:
  "meta quietTx = Some \<lparr>preBalances = [10, 7], postBalances = [9, 7], preTokenBalances = None,
                        postTokenBalances = None\<rparr>"
  "accountKeys quietTx = [KeyString payerKey, KeyString walletKey]"
  "determineTransactionType (instructions quietTx) = TRANSFER"
  "isAddressInvolved (accountKeys quietTx) walletKey"
  "isAddressInvolved (accountKeys quietTx) payerKey"
  by (simp_all add: quietTx_def program_ids isAddressInvolved_def)

lemma quiet_native:
  "calculateSOLChange [KeyString payerKey, KeyString walletKey] [10, 7] [9, 7] walletKey = 0"
  "calculateSOLChange [KeyString payerKey, KeyString walletKey] [10, 7] [9, 7] payerKey = - 1"
  using wallet_keys_differ
  by (simp_all add: calculateSOLChange_def lamportsAt_def toNumber_safe numSub_safe)

lemma quiet_null: "parseTransaction fmt svc quietTx walletKey = None"
proof -
  have "parseTransferTransaction fmt svc quietTx walletKey = None"
    by (simp add: parseTransferTransaction_def quiet_parts quiet_native orEmpty_def
          no_token_changes)
  then show ?thesis
    by (simp add: parseTransaction_def quiet_parts SWAP_def TRANSFER_def)
qed

lemma quiet_event: "\<exists>pd. parseTransaction fmt svc quietTx payerKey = Some pd"
proof -
  have "\<exists>pd. parseTransferTransaction fmt svc quietTx payerKey = Some pd"
    by (simp add: parseTransferTransaction_def quiet_parts quiet_native Let_def)
  then show ?thesis
    using quiet_parts(5)
    by (auto simp: parseTransaction_def quiet_parts(1,3) SWAP_def TRANSFER_def)
qed

lemma quietEnv_parts:
  "validPublicKey quietEnv walletKey"
  "validPublicKey quietEnv payerKey"
  "signaturesOf (node quietEnv) a = Inr [\<lparr>sig_info.signature = ''Q1'', sig_info.blockTime = Some 1\<rparr>]"
  "transactionOf (node quietEnv) s = Inr (Some quietTx)"
  by (simp_all add: quietEnv_def wallet_valid payer_valid)

lemma quiet_process_wallet:
  "processTransaction quietEnv ''Q1'' walletKey st
     = st\<lparr>effects := effects st @ [RpcGetTransaction ''Q1'', ClassifierCall ''Q1'' walletKey]\<rparr>"
  by (simp add: processTransaction_def getTransaction_def quietEnv_parts quiet_null addEffect_def)

text \<open>
  The theorem at a transfer between other accounts in which the wallet only takes part:
  after a firing of the timer the signature is still unprocessed and the next poll of the
  wallet fetches and classifies it again.
\<close>

theorem null_classified_is_reprocessed_witness:
  "servesOnly quietEnv ''Q1'' quietTx
   \<and> parseTransaction demoFormatters noServices quietTx walletKey = None
   \<and> \<not> isTransactionProcessed (run [(quietEnv, TimerFired)] walletMonitor) ''Q1''
   \<and> (\<exists>before after.
         effects (pollRecentTransactions quietEnv walletKey (run [(quietEnv, TimerFired)] walletMonitor))
           = effects (run [(quietEnv, TimerFired)] walletMonitor) @ before
               @ [RpcGetTransaction ''Q1'', ClassifierCall ''Q1'' walletKey] @ after)"
proof -
  have serves: "servesOnly quietEnv ''Q1'' quietTx" by (simp add: servesOnly_def quietEnv_parts)
  have mon: "monitoredAddresses walletMonitor = [walletKey]" by (simp add: walletMonitor_def)
  have evs: "list_all (\<lambda>x. servesOnly (fst x) ''Q1'' quietTx) [(quietEnv, TimerFired)]"
    using serves by simp
  have null: "list_all (\<lambda>a. parseTransaction demoFormatters noServices quietTx a = None)
                (monitoredAddresses walletMonitor)"
    by (simp add: mon quiet_null)
  have new: "\<not> isTransactionProcessed walletMonitor ''Q1''"
    by (simp add: isTransactionProcessed_def walletMonitor_def)
  have window: "''Q1'' \<in> set (map sig_info.signature
                  (take 10 [\<lparr>sig_info.signature = ''Q1'', sig_info.blockTime = Some 1\<rparr>]))"
    by simp
  from null_classified_is_reprocessed [OF evs null new] serves quietEnv_parts(1,3,4) mon window
  show ?thesis
    by (auto simp del: run_monitored simp: quiet_null)
qed

text \<open>
  C10 as the claim words it fails.  The transfer takes a lamport from the payer and
  leaves the wallet's balance as it was, so the classifier maps it to null for the wallet
  and to an event for the payer.  With both addresses monitored, one firing of the timer
  polls the wallet, which fetches and classifies the transaction and leaves it unmarked,
  and then the payer, whose event marks the signature.  The next poll of the wallet,
  with the signature still in its window, requests the signatures and nothing else.
\<close>

theorem null_for_one_address_marked_through_another:
  "transactionOf (node quietEnv) ''Q1'' = Inr (Some quietTx)
   \<and> parseTransaction (formats quietEnv) (collab quietEnv) quietTx walletKey = None
   \<and> monitoredAddresses bothMonitor = [walletKey, payerKey]
   \<and> \<not> isTransactionProcessed bothMonitor ''Q1''
   \<and> classifiedSignatures (effects (pollRecentTransactions quietEnv walletKey bothMonitor)) = [''Q1'']
   \<and> \<not> isTransactionProcessed (pollRecentTransactions quietEnv walletKey bothMonitor) ''Q1''
   \<and> isTransactionProcessed (run [(quietEnv, TimerFired)] bothMonitor) ''Q1''
   \<and> getSignaturesForAddress (node quietEnv) walletKey 10
       = Inr [\<lparr>sig_info.signature = ''Q1'', sig_info.blockTime = Some 1\<rparr>]
   \<and> effects (pollRecentTransactions quietEnv walletKey (run [(quietEnv, TimerFired)] bothMonitor))
       = effects (run [(quietEnv, TimerFired)] bothMonitor) @ [RpcGetSignatures walletKey 10]"
proof -
  obtain pd where pd: "parseTransaction (formats quietEnv) (collab quietEnv) quietTx payerKey = Some pd"
    using quiet_event by blast
  have both: "monitoredAddresses bothMonitor = [walletKey, payerKey]"
    "processedTransactions bothMonitor = []" "effects bothMonitor = []"
    by (simp_all add: bothMonitor_def walletMonitor_def)
  have sigs: "getSignaturesForAddress (node quietEnv) a 10
                = Inr [\<lparr>sig_info.signature = ''Q1'', sig_info.blockTime = Some 1\<rparr>]" for a
    by (simp add: getSignaturesForAddress_def quietEnv_parts)
  define s1 where "s1 = pollRecentTransactions quietEnv walletKey bothMonitor"
  have s1: "processedTransactions s1 = []"
    "effects s1 = [RpcGetSignatures walletKey 10, RpcGetTransaction ''Q1'', ClassifierCall ''Q1'' walletKey]"
    by (simp_all add: s1_def pollRecentTransactions_def quietEnv_parts sigs pollStep_def
          quiet_process_wallet isTransactionProcessed_def addEffect_def both)
  define s2 where "s2 = pollRecentTransactions quietEnv payerKey s1"
  have s2: "isTransactionProcessed s2 ''Q1''"
    using processTransaction_emits [of quietEnv "''Q1''" quietTx payerKey pd]
    by (simp add: s2_def pollRecentTransactions_def quietEnv_parts sigs pollStep_def pd
          getTransaction_def isTransactionProcessed_def addEffect_def s1
          addProcessedTransaction_def)
  have r: "run [(quietEnv, TimerFired)] bothMonitor = s2"
    by (simp add: run_def pollingTick_def both s1_def s2_def)
  have again: "effects (pollRecentTransactions quietEnv walletKey s2)
                 = effects s2 @ [RpcGetSignatures walletKey 10]"
    using s2
    by (simp add: pollRecentTransactions_def quietEnv_parts sigs pollStep_def Let_def)
       (simp add: addEffect_def)
  have "\<not> isTransactionProcessed s1 ''Q1''" by (simp add: isTransactionProcessed_def s1)
  moreover have "\<not> isTransactionProcessed bothMonitor ''Q1''"
    by (simp add: isTransactionProcessed_def both)
  moreover have "classifiedSignatures (effects s1) = [''Q1'']" by (simp add: s1)
  ultimately show ?thesis
    using r s2 again sigs both(1) by (simp add: quietEnv_parts quiet_null s1_def)
qed

end
